theory Spec2Isabelle
  imports Complex_Main "HOL-Library.Multiset"
begin

section \<open>JavaScript numbers\<close>

text \<open>
  The analyzer (\<^verbatim>\<open>src/index.ts\<close>) computes on JavaScript numbers. They are
  modelled as exact reals extended by the three special values of the language:
  \<open>Fin r\<close> is a finite number, \<open>PInf\<close> and \<open>NInf\<close> are \<^verbatim>\<open>Infinity\<close> and
  \<^verbatim>\<open>-Infinity\<close>, \<open>NaN\<close> is \<^verbatim>\<open>NaN\<close>. Arithmetic on finite values is exact:
  binary64 rounding and the sign of zero are not modelled (zero is \<^verbatim>\<open>+0\<close>), and
  overflow only where the second paragraph says so.
  A read outside an array gives \<^verbatim>\<open>undefined\<close>; the program uses such a value only
  in arithmetic and comparisons, where the language converts it to \<^verbatim>\<open>NaN\<close>, so
  \<open>NaN\<close> stands for it as well. Periods are natural numbers (the program passes
  positive integer literals) and timestamps are integers (epoch milliseconds).

  One property below, the bounds of the relative strength index, depends on the range of
  binary64: sums of large finite prices overflow to \<^verbatim>\<open>Infinity\<close>. The functions of
  that indicator are therefore evaluated with the range-checked operations \<open>radd\<close>,
  \<open>rsub\<close>, \<open>rmul\<close> and \<open>rdiv\<close> defined after the exact ones: a finite result
  beyond \<^verbatim>\<open>Number.MAX_VALUE\<close> becomes an infinity.
\<close>

datatype jsnum = Fin real | PInf | NInf | NaN

fun jneg :: "jsnum \<Rightarrow> jsnum" where
  "jneg (Fin a) = Fin (- a)"
| "jneg PInf = NInf"
| "jneg NInf = PInf"
| "jneg NaN = NaN"

fun jadd :: "jsnum \<Rightarrow> jsnum \<Rightarrow> jsnum" where
  "jadd (Fin a) (Fin b) = Fin (a + b)"
| "jadd NaN _ = NaN"
| "jadd _ NaN = NaN"
| "jadd PInf NInf = NaN"
| "jadd NInf PInf = NaN"
| "jadd PInf _ = PInf"
| "jadd _ PInf = PInf"
| "jadd NInf _ = NInf"
| "jadd _ NInf = NInf"

definition jsub :: "jsnum \<Rightarrow> jsnum \<Rightarrow> jsnum" where
  "jsub a b = jadd a (jneg b)"

fun jmul :: "jsnum \<Rightarrow> jsnum \<Rightarrow> jsnum" where
  "jmul (Fin a) (Fin b) = Fin (a * b)"
| "jmul NaN _ = NaN"
| "jmul _ NaN = NaN"
| "jmul PInf (Fin b) = (if b = 0 then NaN else if 0 < b then PInf else NInf)"
| "jmul NInf (Fin b) = (if b = 0 then NaN else if 0 < b then NInf else PInf)"
| "jmul (Fin a) PInf = (if a = 0 then NaN else if 0 < a then PInf else NInf)"
| "jmul (Fin a) NInf = (if a = 0 then NaN else if 0 < a then NInf else PInf)"
| "jmul PInf PInf = PInf"
| "jmul NInf NInf = PInf"
| "jmul PInf NInf = NInf"
| "jmul NInf PInf = NInf"

fun jdiv :: "jsnum \<Rightarrow> jsnum \<Rightarrow> jsnum" where
  "jdiv (Fin a) (Fin b) =
     (if b = 0 then (if a = 0 then NaN else if 0 < a then PInf else NInf)
      else Fin (a / b))"
| "jdiv NaN _ = NaN"
| "jdiv _ NaN = NaN"
| "jdiv (Fin a) PInf = Fin 0"
| "jdiv (Fin a) NInf = Fin 0"
| "jdiv PInf (Fin b) = (if 0 \<le> b then PInf else NInf)"
| "jdiv NInf (Fin b) = (if 0 \<le> b then NInf else PInf)"
| "jdiv PInf PInf = NaN"
| "jdiv PInf NInf = NaN"
| "jdiv NInf PInf = NaN"
| "jdiv NInf NInf = NaN"

text \<open>The comparisons \<^verbatim>\<open><\<close>, \<^verbatim>\<open>>\<close>, \<^verbatim>\<open><=\<close>, \<^verbatim>\<open>>=\<close> and \<^verbatim>\<open>===\<close>:
  each is false as soon as one side is \<^verbatim>\<open>NaN\<close>.\<close>

fun jlt :: "jsnum \<Rightarrow> jsnum \<Rightarrow> bool" where
  "jlt (Fin a) (Fin b) = (a < b)"
| "jlt NaN _ = False"
| "jlt _ NaN = False"
| "jlt _ NInf = False"
| "jlt PInf _ = False"
| "jlt NInf _ = True"
| "jlt _ PInf = True"

definition jgt :: "jsnum \<Rightarrow> jsnum \<Rightarrow> bool" where
  "jgt a b = jlt b a"

definition jeq :: "jsnum \<Rightarrow> jsnum \<Rightarrow> bool" where
  "jeq a b = (a \<noteq> NaN \<and> b \<noteq> NaN \<and> a = b)"

definition jle :: "jsnum \<Rightarrow> jsnum \<Rightarrow> bool" where
  "jle a b = (jlt a b \<or> jeq a b)"

definition jge :: "jsnum \<Rightarrow> jsnum \<Rightarrow> bool" where
  "jge a b = jle b a"

text \<open>\<^verbatim>\<open>Math.max\<close>, \<^verbatim>\<open>Math.min\<close> (of two arguments), \<^verbatim>\<open>Math.abs\<close>,
  \<^verbatim>\<open>Math.sqrt\<close> and \<^verbatim>\<open>Math.pow(x, 2)\<close>.\<close>

definition jmax :: "jsnum \<Rightarrow> jsnum \<Rightarrow> jsnum" where
  "jmax a b = (if a = NaN \<or> b = NaN then NaN else if jlt a b then b else a)"

definition jmin :: "jsnum \<Rightarrow> jsnum \<Rightarrow> jsnum" where
  "jmin a b = (if a = NaN \<or> b = NaN then NaN else if jlt b a then b else a)"

fun jabs :: "jsnum \<Rightarrow> jsnum" where
  "jabs (Fin a) = Fin \<bar>a\<bar>"
| "jabs PInf = PInf"
| "jabs NInf = PInf"
| "jabs NaN = NaN"

fun jsqrt :: "jsnum \<Rightarrow> jsnum" where
  "jsqrt (Fin a) = (if a < 0 then NaN else Fin (sqrt a))"
| "jsqrt PInf = PInf"
| "jsqrt NInf = NaN"
| "jsqrt NaN = NaN"

definition jpow2 :: "jsnum \<Rightarrow> jsnum" where
  "jpow2 a = jmul a a"

text \<open>The range of binary64. \<open>max_double\<close> is \<^verbatim>\<open>Number.MAX_VALUE\<close>, that is
  \<^verbatim>\<open>2^1024 - 2^971\<close>; \<open>b64\<close> turns a finite result beyond it into an infinity, and
  the range-checked operations apply it to the exact result. Rounding is still not
  modelled: a result in the narrow band between \<^verbatim>\<open>Number.MAX_VALUE\<close> and
  \<^verbatim>\<open>2^1024 - 2^970\<close>, which binary64 rounds down to \<^verbatim>\<open>Number.MAX_VALUE\<close>, counts as
  an overflow here, and results that underflow stay exact. \<open>half_range\<close> is
  \<^verbatim>\<open>2^1023\<close>, half of the range: sums that stay below it stay finite, whatever the
  rounding.\<close>

definition max_double :: real where
  "max_double = 2 ^ 1024 - 2 ^ 971"

definition half_range :: real where
  "half_range = 2 ^ 1023"

fun b64 :: "jsnum \<Rightarrow> jsnum" where
  "b64 (Fin r) = (if max_double < r then PInf else if r < - max_double then NInf else Fin r)"
| "b64 PInf = PInf"
| "b64 NInf = NInf"
| "b64 NaN = NaN"

declare b64.simps [simp del]

definition radd :: "jsnum \<Rightarrow> jsnum \<Rightarrow> jsnum" where
  "radd a b = b64 (jadd a b)"

definition rsub :: "jsnum \<Rightarrow> jsnum \<Rightarrow> jsnum" where
  "rsub a b = b64 (jsub a b)"

definition rmul :: "jsnum \<Rightarrow> jsnum \<Rightarrow> jsnum" where
  "rmul a b = b64 (jmul a b)"

definition rdiv :: "jsnum \<Rightarrow> jsnum \<Rightarrow> jsnum" where
  "rdiv a b = b64 (jdiv a b)"

section \<open>Arrays\<close>

text \<open>\<^verbatim>\<open>xs[i]\<close> on an array of numbers: \<^verbatim>\<open>undefined\<close> outside the array.\<close>

definition js_nth :: "jsnum list \<Rightarrow> int \<Rightarrow> jsnum" where
  "js_nth xs i = (if 0 \<le> i \<and> i < int (length xs) then xs ! nat i else NaN)"

text \<open>\<^verbatim>\<open>xs[xs.length - 1]\<close> and \<^verbatim>\<open>xs[xs.length - 2]\<close>.\<close>

definition js_last :: "jsnum list \<Rightarrow> jsnum" where
  "js_last xs = js_nth xs (int (length xs) - 1)"

definition js_last2 :: "jsnum list \<Rightarrow> jsnum" where
  "js_last2 xs = js_nth xs (int (length xs) - 2)"

text \<open>\<^verbatim>\<open>xs.slice(s, e)\<close>: a negative bound counts from the end, and both bounds
  are cut to the array.\<close>

definition js_rel :: "nat \<Rightarrow> int \<Rightarrow> nat" where
  "js_rel n k = (if k < 0 then nat (max (int n + k) 0) else min (nat k) n)"

definition js_slice :: "'a list \<Rightarrow> int \<Rightarrow> int \<Rightarrow> 'a list" where
  "js_slice xs s e =
     (let a = js_rel (length xs) s; b = js_rel (length xs) e in take (b - a) (drop a xs))"

text \<open>\<^verbatim>\<open>xs.slice(s)\<close>.\<close>

definition js_slice_from :: "'a list \<Rightarrow> int \<Rightarrow> 'a list" where
  "js_slice_from xs s = drop (js_rel (length xs) s) xs"

text \<open>\<^verbatim>\<open>xs.reduce((a, b) => a + b, 0)\<close>.\<close>

definition js_sum :: "jsnum list \<Rightarrow> jsnum" where
  "js_sum xs = foldl jadd (Fin 0) xs"

text \<open>The same reduction with the range-checked addition.\<close>

definition js_sum_b64 :: "jsnum list \<Rightarrow> jsnum" where
  "js_sum_b64 xs = foldl radd (Fin 0) xs"

section \<open>The data model\<close>

record TokenData =
  timestamp :: int
  price :: jsnum
  volume :: jsnum

record CrossSignals =
  goldenCross :: bool
  deathCross :: bool

datatype Recommendation = BUY | SELL | HOLD

record StrategySignal =
  currentPrice :: jsnum
  recommendation :: Recommendation
  confidence :: jsnum
  reasons :: "string list"
  crossSignals :: CrossSignals

record MACD =
  macdLine :: "jsnum list"
  signalLine :: "jsnum list"

record BollingerBands =
  middleBand :: "jsnum list"
  upperBand :: "jsnum list"
  lowerBand :: "jsnum list"

datatype error = TypeError

section \<open>The class \<^verbatim>\<open>TradingStrategy\<close>\<close>

text \<open>
  The constructor stores \<^verbatim>\<open>data.sort((a, b) => a.timestamp - b.timestamp)\<close>.
  \<^verbatim>\<open>Array.prototype.sort\<close> is a stable sort (ECMAScript 2019), and the comparator orders
  by the integer timestamp, so the stored array is the stable sort by that key. Every
  method below takes the stored array \<^verbatim>\<open>this.data\<close> as its first argument.
\<close>

definition TradingStrategy :: "TokenData list \<Rightarrow> TokenData list" where
  "TradingStrategy data = sort_key timestamp data"

subsection \<open>\<^verbatim>\<open>calculateSmoothedMovingAverage\<close> and \<^verbatim>\<open>calculateRSI\<close>\<close>

text \<open>The arithmetic of these two methods is range-checked; \<^verbatim>\<open>periods - 1\<close> is a small
  integer and is computed exactly.\<close>

function smoothed_loop :: "jsnum list \<Rightarrow> nat \<Rightarrow> nat \<Rightarrow> jsnum list \<Rightarrow> jsnum list" where
  "smoothed_loop values periods i smoothedMA =
     (if i < length values
      then smoothed_loop values periods (Suc i)
             (smoothedMA @
                [rdiv (radd (rmul (js_last smoothedMA) (jsub (Fin (real periods)) (Fin 1)))
                            (values ! i))
                      (Fin (real periods))])
      else smoothedMA)"
  by pat_completeness auto
termination
  by (relation "measure (\<lambda>(values, periods, i, smoothedMA). length values - i)") auto

declare smoothed_loop.simps [simp del]

definition calculateSmoothedMovingAverage :: "jsnum list \<Rightarrow> nat \<Rightarrow> jsnum list" where
  "calculateSmoothedMovingAverage values periods =
     smoothed_loop values periods periods
       [rdiv (js_sum_b64 (js_slice values 0 (int periods))) (Fin (real periods))]"

definition rsi_value :: "jsnum \<Rightarrow> jsnum \<Rightarrow> jsnum" where
  "rsi_value ag al =
     (if jeq al (Fin 0) then Fin 100
      else rsub (Fin 100) (rdiv (Fin 100) (radd (Fin 1) (rdiv ag al))))"

definition price_changes :: "jsnum list \<Rightarrow> jsnum list" where
  "price_changes prices =
     map (\<lambda>i. if 0 < i then rsub (prices ! i) (prices ! (i - 1)) else Fin 0)
       [0 ..< length prices]"

definition rsi_avgGain :: "TokenData list \<Rightarrow> nat \<Rightarrow> jsnum list" where
  "rsi_avgGain data periods =
     calculateSmoothedMovingAverage
       (map (\<lambda>change. jmax change (Fin 0)) (price_changes (map price data))) periods"

definition rsi_avgLoss :: "TokenData list \<Rightarrow> nat \<Rightarrow> jsnum list" where
  "rsi_avgLoss data periods =
     calculateSmoothedMovingAverage
       (map (\<lambda>change. jmax (jneg change) (Fin 0)) (price_changes (map price data))) periods"

definition calculateRSI :: "TokenData list \<Rightarrow> nat \<Rightarrow> jsnum list" where
  "calculateRSI data periods =
     (let avgGain = rsi_avgGain data periods;
          avgLoss = rsi_avgLoss data periods
      in map (\<lambda>i. rsi_value (avgGain ! i) (js_nth avgLoss (int i))) [0 ..< length avgGain])"

subsection \<open>\<^verbatim>\<open>calculateSimpleMovingAverage\<close>, \<^verbatim>\<open>calculateEMA\<close> and
  \<^verbatim>\<open>calculateExponentialMovingAverages\<close>\<close>

definition calculateSimpleMovingAverage :: "jsnum list \<Rightarrow> nat \<Rightarrow> jsnum" where
  "calculateSimpleMovingAverage prices periods =
     jdiv (js_sum (js_slice prices 0 (int periods))) (Fin (real periods))"

function ema_loop :: "jsnum list \<Rightarrow> jsnum \<Rightarrow> nat \<Rightarrow> jsnum list \<Rightarrow> jsnum list" where
  "ema_loop prices alpha i ema =
     (if i < length prices
      then ema_loop prices alpha (Suc i)
             (ema @ [jadd (jmul (prices ! i) alpha)
                          (jmul (js_last ema) (jsub (Fin 1) alpha))])
      else ema)"
  by pat_completeness auto
termination
  by (relation "measure (\<lambda>(prices, alpha, i, ema). length prices - i)") auto

declare ema_loop.simps [simp del]

definition ema_alpha :: "nat \<Rightarrow> jsnum" where
  "ema_alpha periods = jdiv (Fin 2) (jadd (Fin (real periods)) (Fin 1))"

text \<open>\<^verbatim>\<open>calculateEMA\<close> seeds with \<^verbatim>\<open>calculateSimpleMovingAverage(prices.slice(0, periods))\<close>:
  the second argument is left to its default, 50.\<close>

definition calculateEMA :: "TokenData list \<Rightarrow> nat \<Rightarrow> jsnum list" where
  "calculateEMA data periods =
     (let prices = map price data
      in ema_loop prices (ema_alpha periods) periods
           [calculateSimpleMovingAverage (js_slice prices 0 (int periods)) 50])"

definition calculateExponentialMovingAverages :: "jsnum list \<Rightarrow> nat \<Rightarrow> jsnum list" where
  "calculateExponentialMovingAverages prices periods =
     ema_loop prices (ema_alpha periods) periods
       [jdiv (js_sum (js_slice prices 0 (int periods))) (Fin (real periods))]"

subsection \<open>\<^verbatim>\<open>calculateMACD\<close>\<close>

definition calculateMACD :: "TokenData list \<Rightarrow> nat \<Rightarrow> nat \<Rightarrow> nat \<Rightarrow> MACD" where
  "calculateMACD data shortPeriod longPeriod signalPeriod =
     (let prices = map price data;
          shortEMA = calculateExponentialMovingAverages prices shortPeriod;
          longEMA = calculateExponentialMovingAverages prices longPeriod;
          line = map (\<lambda>i. jsub (shortEMA ! i) (js_nth longEMA (int i))) [0 ..< length shortEMA]
      in \<lparr> macdLine = line,
           signalLine = calculateExponentialMovingAverages line signalPeriod \<rparr>)"

subsection \<open>\<^verbatim>\<open>calculateMovingAverage\<close> and \<^verbatim>\<open>calculateBollingerBands\<close>\<close>

function ma_loop :: "jsnum list \<Rightarrow> nat \<Rightarrow> int \<Rightarrow> jsnum list \<Rightarrow> jsnum list" where
  "ma_loop prices periods i movingAverages =
     (if i < int (length prices)
      then ma_loop prices periods (i + 1)
             (movingAverages @
                [jdiv (js_sum (js_slice prices (i - int periods + 1) (i + 1)))
                      (Fin (real periods))])
      else movingAverages)"
  by pat_completeness auto
termination
  by (relation "measure (\<lambda>(prices, periods, i, movingAverages). nat (int (length prices) - i))")
    auto

declare ma_loop.simps [simp del]

definition calculateMovingAverage :: "jsnum list \<Rightarrow> nat \<Rightarrow> jsnum list" where
  "calculateMovingAverage prices periods = ma_loop prices periods (int periods - 1) []"


definition bollinger_subset :: "jsnum list \<Rightarrow> nat \<Rightarrow> nat \<Rightarrow> jsnum list" where
  "bollinger_subset prices periods i =
     js_slice prices (max 0 (int i - int periods + 1)) (int i + 1)"

definition window_stddev :: "jsnum list \<Rightarrow> jsnum" where
  "window_stddev sub =
     (let mean = jdiv (js_sum sub) (Fin (real (length sub)));
          variance = jdiv (foldl (\<lambda>a b. jadd a (jpow2 (jsub b mean))) (Fin 0) sub)
                          (Fin (real (length sub)))
      in jsqrt variance)"

definition standardDeviations :: "jsnum list \<Rightarrow> nat \<Rightarrow> jsnum list" where
  "standardDeviations prices periods =
     map (\<lambda>i. window_stddev (bollinger_subset prices periods i)) [0 ..< length prices]"

definition calculateBollingerBands :: "TokenData list \<Rightarrow> nat \<Rightarrow> jsnum \<Rightarrow> BollingerBands" where
  "calculateBollingerBands data periods standardDeviation =
     (let prices = map price data;
          mb = calculateMovingAverage prices periods;
          sds = standardDeviations prices periods
      in \<lparr> middleBand = mb,
           upperBand =
             map (\<lambda>i. jadd (mb ! i) (jmul (js_nth sds (int i)) standardDeviation))
               [0 ..< length mb],
           lowerBand =
             map (\<lambda>i. jsub (mb ! i) (jmul (js_nth sds (int i)) standardDeviation))
               [0 ..< length mb] \<rparr>)"

subsection \<open>\<^verbatim>\<open>calculateOBV\<close>\<close>

function obv_loop :: "jsnum list \<Rightarrow> jsnum list \<Rightarrow> nat \<Rightarrow> jsnum list \<Rightarrow> jsnum list" where
  "obv_loop prices volumes i obv =
     (if i < length prices
      then obv_loop prices volumes (Suc i)
             (if jgt (prices ! i) (prices ! (i - 1))
              then obv @ [jadd (js_nth obv (int i - 1)) (js_nth volumes (int i))]
              else if jlt (prices ! i) (prices ! (i - 1))
              then obv @ [jsub (js_nth obv (int i - 1)) (js_nth volumes (int i))]
              else obv @ [js_nth obv (int i - 1)])
      else obv)"
  by pat_completeness auto
termination
  by (relation "measure (\<lambda>(prices, volumes, i, obv). length prices - i)") auto

declare obv_loop.simps [simp del]

definition calculateOBV :: "TokenData list \<Rightarrow> jsnum list" where
  "calculateOBV data =
     (let prices = map price data;
          volumes = map volume data
      in obv_loop prices volumes 1 [js_nth volumes 0])"

text \<open>The value one iteration appends, from the value before it. Under the loop's
  invariant \<^verbatim>\<open>obv.length = i\<close> the reads \<^verbatim>\<open>obv[i-1]\<close> and \<^verbatim>\<open>volumes[i]\<close> are inside
  the arrays (lemma \<open>obv_loop_unfold\<close>).\<close>

definition obv_next :: "jsnum list \<Rightarrow> jsnum list \<Rightarrow> nat \<Rightarrow> jsnum \<Rightarrow> jsnum" where
  "obv_next ps vs i prev =
     (if jgt (ps ! i) (ps ! (i - 1)) then jadd prev (vs ! i)
      else if jlt (ps ! i) (ps ! (i - 1)) then jsub prev (vs ! i)
      else prev)"

subsection \<open>\<^verbatim>\<open>detectCrosses\<close>\<close>

definition detectCrosses :: "TokenData list \<Rightarrow> nat \<Rightarrow> nat \<Rightarrow> CrossSignals" where
  "detectCrosses data shortPeriod longPeriod =
     (let prices = map price data;
          shortTermEMA = calculateExponentialMovingAverages prices shortPeriod;
          longTermEMA = calculateExponentialMovingAverages prices longPeriod
      in if length shortTermEMA < 2 \<or> length longTermEMA < 2
         then \<lparr> goldenCross = False, deathCross = False \<rparr>
         else
           (let shortTermLast = js_slice_from shortTermEMA (- 2);
                longTermLast = js_slice_from longTermEMA (- 2)
            in \<lparr> goldenCross =
                   (jle (js_nth shortTermLast 0) (js_nth longTermLast 0) \<and>
                    jgt (js_nth shortTermLast 1) (js_nth longTermLast 1)),
                 deathCross =
                   (jge (js_nth shortTermLast 0) (js_nth longTermLast 0) \<and>
                    jlt (js_nth shortTermLast 1) (js_nth longTermLast 1)) \<rparr>))"

subsection \<open>\<^verbatim>\<open>generateTradingSignal\<close>\<close>

text \<open>
  The latest value of every indicator, as \<^verbatim>\<open>generateTradingSignal\<close> reads them
  (lines 201 to 217 and 266). The latest price is \<^verbatim>\<open>this.data[this.data.length - 1].price\<close>,
  a property read on \<^verbatim>\<open>undefined\<close> when the array is empty: that case is the error
  branch of \<open>generateTradingSignal\<close> below and \<open>latestPrice\<close> is only used on a
  non-empty array.
\<close>

record Latest =
  latestPrice :: jsnum
  latestRSI :: jsnum
  latestEMA :: jsnum
  latestMACD :: jsnum
  latestSignalLine :: jsnum
  latestUpperBand :: jsnum
  latestLowerBand :: jsnum
  obvSlope :: jsnum
  latestGolden :: bool
  latestDeath :: bool

definition latest_values :: "TokenData list \<Rightarrow> Latest" where
  "latest_values data =
     (let rsi = calculateRSI data 14;
          ema = calculateEMA data 50;
          macd = calculateMACD data 12 26 9;
          bollingerBands = calculateBollingerBands data 20 (Fin 2);
          obv = calculateOBV data;
          crosses = detectCrosses data 50 200
      in \<lparr> latestPrice = price (last data),
           latestRSI = js_last rsi,
           latestEMA = js_last ema,
           latestMACD = js_last (macdLine macd),
           latestSignalLine = js_last (signalLine macd),
           latestUpperBand = js_last (upperBand bollingerBands),
           latestLowerBand = js_last (lowerBand bollingerBands),
           obvSlope = jsub (js_last obv) (js_last2 obv),
           latestGolden = goldenCross crosses,
           latestDeath = deathCross crosses \<rparr>)"

text \<open>The rule table (lines 219 to 284): each block updates the running
  \<^verbatim>\<open>confidence\<close> and appends one reason.\<close>

type_synonym score = "jsnum \<times> string list"

definition rsi_rule :: "Latest \<Rightarrow> score \<Rightarrow> score" where
  "rsi_rule l s =
     (case s of (conf, rsns) \<Rightarrow>
        if jlt (latestRSI l) (Fin 30)
        then (jadd conf (Fin 20), rsns @ [''RSI indicates oversold condition''])
        else if jgt (latestRSI l) (Fin 70)
        then (jsub conf (Fin 20), rsns @ [''RSI indicates overbought condition''])
        else (conf, rsns @ [''RSI indicates steady condition'']))"

definition ema_rule :: "Latest \<Rightarrow> score \<Rightarrow> score" where
  "ema_rule l s =
     (case s of (conf, rsns) \<Rightarrow>
        if jgt (latestPrice l) (latestEMA l)
        then (jadd conf (Fin 15), rsns @ [''Price is above EMA50, bullish trend''])
        else (jsub conf (Fin 15), rsns @ [''Price is below EMA50, bearish trend'']))"

definition macd_rule :: "Latest \<Rightarrow> score \<Rightarrow> score" where
  "macd_rule l s =
     (case s of (conf, rsns) \<Rightarrow>
        if jgt (latestMACD l) (latestSignalLine l)
        then (jadd conf (Fin 25), rsns @ [''MACD shows bullish momentum''])
        else (jsub conf (Fin 25), rsns @ [''MACD shows bearish momentum'']))"

definition bollinger_rule :: "Latest \<Rightarrow> score \<Rightarrow> score" where
  "bollinger_rule l s =
     (case s of (conf, rsns) \<Rightarrow>
        if jle (latestPrice l) (latestLowerBand l)
        then (jadd conf (Fin 20),
              rsns @ [''Price near lower Bollinger Band, potential buy signal''])
        else if jge (latestPrice l) (latestUpperBand l)
        then (jsub conf (Fin 20),
              rsns @ [''Price near upper Bollinger Band, potential sell signal''])
        else (conf, rsns @ [''Bollinger Band indicates steady condition'']))"

definition obv_rule :: "Latest \<Rightarrow> score \<Rightarrow> score" where
  "obv_rule l s =
     (case s of (conf, rsns) \<Rightarrow>
        if jgt (obvSlope l) (Fin 0)
        then (jadd conf (Fin 20), rsns @ [''Positive On-Balance Volume trend''])
        else (jsub conf (Fin 20), rsns @ [''Negative On-Balance Volume trend'']))"

definition golden_rule :: "Latest \<Rightarrow> score \<Rightarrow> score" where
  "golden_rule l s =
     (case s of (conf, rsns) \<Rightarrow>
        if latestGolden l
        then (jadd conf (Fin 30),
              rsns @
                [''Golden Cross detected: Short-term EMA crossing above long-term EMA''])
        else (conf, rsns))"

definition death_rule :: "Latest \<Rightarrow> score \<Rightarrow> score" where
  "death_rule l s =
     (case s of (conf, rsns) \<Rightarrow>
        if latestDeath l
        then (jsub conf (Fin 30),
              rsns @
                [''Death Cross detected: Short-term EMA crossing below long-term EMA''])
        else (conf, rsns))"

definition rule_table :: "Latest \<Rightarrow> score" where
  "rule_table l =
     death_rule l (golden_rule l (obv_rule l (bollinger_rule l (macd_rule l
       (ema_rule l (rsi_rule l (Fin 0, [])))))))"

text \<open>The signed score before it is clamped: the value of \<^verbatim>\<open>confidence\<close> at
  line 286.\<close>

definition signed_score :: "TokenData list \<Rightarrow> jsnum" where
  "signed_score data = fst (rule_table (latest_values data))"

definition recommend :: "jsnum \<Rightarrow> Recommendation" where
  "recommend conf =
     (let rec = HOLD;
          rec = (if jgt conf (Fin 30) then BUY else rec);
          rec = (if jlt conf (Fin (- 30)) then SELL else rec)
      in rec)"

definition generateTradingSignal :: "TokenData list \<Rightarrow> error + StrategySignal" where
  "generateTradingSignal data =
     (if data = [] then Inl TypeError
      else
        (let l = latest_values data;
             (conf, rsns) = rule_table l;
             rec = recommend conf;
             conf = jmin (jmax conf (Fin (- 100))) (Fin 100)
         in Inr \<lparr> currentPrice = latestPrice l,
                  recommendation = rec,
                  confidence = jabs conf,
                  reasons = rsns,
                  crossSignals =
                    \<lparr> goldenCross = latestGolden l, deathCross = latestDeath l \<rparr> \<rparr>))"

section \<open>Example inputs\<close>

text \<open>Three observations with rising prices, and three whose short average crosses
  above the long one at the last point.\<close>

definition ex3 :: "TokenData list" where
  "ex3 = [\<lparr>timestamp = 1, price = Fin 10, volume = Fin 5\<rparr>,
          \<lparr>timestamp = 2, price = Fin 11, volume = Fin 6\<rparr>,
          \<lparr>timestamp = 3, price = Fin 12, volume = Fin 7\<rparr>]"

definition cross3 :: "TokenData list" where
  "cross3 = [\<lparr>timestamp = 1, price = Fin 3, volume = Fin 5\<rparr>,
             \<lparr>timestamp = 2, price = Fin 1, volume = Fin 6\<rparr>,
             \<lparr>timestamp = 3, price = Fin 4, volume = Fin 7\<rparr>]"

definition fall3 :: "TokenData list" where
  "fall3 = [\<lparr>timestamp = 1, price = Fin 12, volume = Fin 5\<rparr>,
            \<lparr>timestamp = 2, price = Fin 11, volume = Fin 6\<rparr>,
            \<lparr>timestamp = 3, price = Fin 10, volume = Fin 7\<rparr>]"

text \<open>Two observations with the same timestamp, in both orders, and \<open>ex3\<close> in another
  order.\<close>

definition tie2 :: "TokenData list" where
  "tie2 = [\<lparr>timestamp = 1, price = Fin 1, volume = Fin 1\<rparr>,
           \<lparr>timestamp = 1, price = Fin 2, volume = Fin 1\<rparr>]"

definition tie2_swapped :: "TokenData list" where
  "tie2_swapped = [\<lparr>timestamp = 1, price = Fin 2, volume = Fin 1\<rparr>,
                   \<lparr>timestamp = 1, price = Fin 1, volume = Fin 1\<rparr>]"

definition ex3_shuffled :: "TokenData list" where
  "ex3_shuffled = [\<lparr>timestamp = 3, price = Fin 12, volume = Fin 7\<rparr>,
                   \<lparr>timestamp = 1, price = Fin 10, volume = Fin 5\<rparr>,
                   \<lparr>timestamp = 2, price = Fin 11, volume = Fin 6\<rparr>]"

text \<open>Twenty-seven daily observations: the price is 1 for 26 days and 2 on the last.\<close>

definition step27 :: "TokenData list" where
  "step27 = map (\<lambda>i. \<lparr>timestamp = int i, price = Fin (if i < 26 then 1 else 2), volume = Fin 1\<rparr>)
              [0 ..< 27]"



text \<open>Fifteen daily observations whose price alternates between 1 and \<open>half_range\<close>,
  both finite numbers of binary64.\<close>

definition alt15 :: "TokenData list" where
  "alt15 = map (\<lambda>i. \<lparr>timestamp = int i,
                       price = Fin (if even i then 1 else half_range),
                       volume = Fin 1\<rparr>) [0 ..< 15]"

section \<open>Numbers and arrays: basic facts\<close>

text \<open>The two range constants as numerals, for evaluation.\<close>

lemma max_double_code [code]:
  "max_double = 179769313486231570814527423731704356798070567525844996598917476803157260780028538760589558632766878171540458953514382464234321326889464182768467546703537516986049910576551282076245490090389328944075868508455133942304583236903222948165808559332123348274797826204144723168738177180919299881250404026184124858368"
  by (simp add: max_double_def)

lemma half_range_code [code]:
  "half_range = 89884656743115795386465259539451236680898848947115328636715040578866337902750481566354238661203768010560056939935696678829394884407208311246423715319737062188883946712432742638151109800623047059726541476042502884419075341171231440736956555270413618581675255342293149119973622969239858152417678164812112068608"
  by (simp add: half_range_def)

lemmas js_eval = js_nth_def js_last_def js_last2_def js_slice_def js_slice_from_def js_rel_def
  js_sum_def jsub_def jgt_def jge_def jle_def jeq_def jmax_def jmin_def jpow2_def ema_alpha_def

lemma jlt_asym: "jlt a b \<Longrightarrow> \<not> jlt b a"
  by (cases a; cases b) auto

lemma js_slice_from_last2:
  assumes "2 \<le> length xs"
  shows "js_nth (js_slice_from xs (- 2)) 0 = js_last2 xs"
    and "js_nth (js_slice_from xs (- 2)) 1 = js_last xs"
proof -
  have a: "Suc (length xs - 2) = length xs - 1"
    using assms by arith
  show "js_nth (js_slice_from xs (- 2)) 0 = js_last2 xs"
    using assms
    by (simp add: js_slice_from_def js_rel_def js_nth_def js_last2_def nat_diff_distrib')
  show "js_nth (js_slice_from xs (- 2)) 1 = js_last xs"
    using assms a
    by (auto simp: js_slice_from_def js_rel_def js_nth_def js_last_def nat_diff_distrib')
qed

section \<open>The signal on the example\<close>

lemma ex3_rsi: "calculateRSI ex3 14 = [Fin 100]"
  by code_simp

lemma ex3_ema: "calculateEMA ex3 50 = [Fin (33 / 50)]"
  by code_simp

lemma ex3_macd:
  "calculateMACD ex3 12 26 9 = \<lparr>macdLine = [Fin (77 / 52)], signalLine = [Fin (77 / 468)]\<rparr>"
  by code_simp

lemma ex3_obv: "calculateOBV ex3 = [Fin 5, Fin 11, Fin 18]"
  by code_simp

lemma ex3_crosses: "detectCrosses ex3 50 200 = \<lparr>goldenCross = False, deathCross = False\<rparr>"
  by code_simp

lemma ex3_mb: "calculateMovingAverage (map price ex3) 20 = []"
  by code_simp

lemma ex3_bb:
  "calculateBollingerBands ex3 20 (Fin 2) = \<lparr>middleBand = [], upperBand = [], lowerBand = []\<rparr>"
  by (simp add: calculateBollingerBands_def ex3_mb)

lemma ex3_latest:
  "latest_values ex3 =
     \<lparr> latestPrice = Fin 12, latestRSI = Fin 100, latestEMA = Fin (33 / 50),
       latestMACD = Fin (77 / 52), latestSignalLine = Fin (77 / 468),
       latestUpperBand = NaN, latestLowerBand = NaN, obvSlope = Fin 7,
       latestGolden = False, latestDeath = False \<rparr>"
  unfolding latest_values_def ex3_rsi ex3_ema ex3_macd ex3_obv ex3_crosses ex3_bb
  by (simp add: js_eval ex3_def)

lemma ex3_rule_table:
  "rule_table (latest_values ex3) =
     (Fin 40, [''RSI indicates overbought condition'',
               ''Price is above EMA50, bullish trend'',
               ''MACD shows bullish momentum'',
               ''Bollinger Band indicates steady condition'',
               ''Positive On-Balance Volume trend''])"
  unfolding ex3_latest
  by (simp add: rule_table_def rsi_rule_def ema_rule_def macd_rule_def bollinger_rule_def
      obv_rule_def golden_rule_def death_rule_def js_eval)

lemma ex3_score: "signed_score ex3 = Fin 40"
  by (simp add: signed_score_def ex3_rule_table)

lemma ex3_signal:
  "generateTradingSignal ex3 =
     Inr \<lparr> currentPrice = Fin 12, recommendation = BUY, confidence = Fin 40,
           reasons = [''RSI indicates overbought condition'',
                      ''Price is above EMA50, bullish trend'',
                      ''MACD shows bullish momentum'',
                      ''Bollinger Band indicates steady condition'',
                      ''Positive On-Balance Volume trend''],
           crossSignals = \<lparr>goldenCross = False, deathCross = False\<rparr> \<rparr>"
  unfolding generateTradingSignal_def ex3_rule_table Let_def
  by (simp add: ex3_latest recommend_def js_eval) (simp add: ex3_def)

lemma ema_cross3_1:
  "calculateExponentialMovingAverages (map price cross3) 1 = [Fin 3, Fin 1, Fin 4]"
  by code_simp

lemma ema_cross3_2:
  "calculateExponentialMovingAverages (map price cross3) 2 = [Fin 2, Fin (10 / 3)]"
  by code_simp

section \<open>The rule table\<close>

lemma rsi_rule_fin:
  "\<exists>k' r'. rsi_rule l (Fin k, r) = (Fin k', r') \<and> k - 20 \<le> k' \<and> k' \<le> k + 20"
  by (simp add: rsi_rule_def jsub_def)

lemma ema_rule_fin:
  "\<exists>k' r'. ema_rule l (Fin k, r) = (Fin k', r') \<and> k - 15 \<le> k' \<and> k' \<le> k + 15"
  by (simp add: ema_rule_def jsub_def)

lemma macd_rule_fin:
  "\<exists>k' r'. macd_rule l (Fin k, r) = (Fin k', r') \<and> k - 25 \<le> k' \<and> k' \<le> k + 25"
  by (simp add: macd_rule_def jsub_def)

lemma bollinger_rule_fin:
  "\<exists>k' r'. bollinger_rule l (Fin k, r) = (Fin k', r') \<and> k - 20 \<le> k' \<and> k' \<le> k + 20"
  by (simp add: bollinger_rule_def jsub_def)

lemma obv_rule_fin:
  "\<exists>k' r'. obv_rule l (Fin k, r) = (Fin k', r') \<and> k - 20 \<le> k' \<and> k' \<le> k + 20"
  by (simp add: obv_rule_def jsub_def)

lemma golden_rule_fin:
  "\<exists>k' r'. golden_rule l (Fin k, r) = (Fin k', r') \<and> k \<le> k' \<and> k' \<le> k + 30"
  by (simp add: golden_rule_def)

lemma death_rule_fin:
  "\<exists>k' r'. death_rule l (Fin k, r) = (Fin k', r') \<and> k - 30 \<le> k' \<and> k' \<le> k"
  by (simp add: death_rule_def jsub_def)

text \<open>Whatever the indicators are (also \<open>NaN\<close>), the score is a finite number: every
  rule adds or subtracts a constant.\<close>

lemma rule_table_fin: "\<exists>k rs. rule_table l = (Fin k, rs) \<and> - 130 \<le> k \<and> k \<le> 130"
proof -
  obtain k0 r0 where s0: "rsi_rule l (Fin 0, []) = (Fin k0, r0)" "0 - 20 \<le> k0" "k0 \<le> 0 + 20"
    using rsi_rule_fin by blast
  obtain k1 r1 where s1: "ema_rule l (Fin k0, r0) = (Fin k1, r1)" "k0 - 15 \<le> k1" "k1 \<le> k0 + 15"
    using ema_rule_fin by blast
  obtain k2 r2 where s2: "macd_rule l (Fin k1, r1) = (Fin k2, r2)" "k1 - 25 \<le> k2" "k2 \<le> k1 + 25"
    using macd_rule_fin by blast
  obtain k3 r3 where s3:
    "bollinger_rule l (Fin k2, r2) = (Fin k3, r3)" "k2 - 20 \<le> k3" "k3 \<le> k2 + 20"
    using bollinger_rule_fin by blast
  obtain k4 r4 where s4: "obv_rule l (Fin k3, r3) = (Fin k4, r4)" "k3 - 20 \<le> k4" "k4 \<le> k3 + 20"
    using obv_rule_fin by blast
  obtain k5 r5 where s5: "golden_rule l (Fin k4, r4) = (Fin k5, r5)" "k4 \<le> k5" "k5 \<le> k4 + 30"
    using golden_rule_fin by blast
  obtain k6 r6 where s6: "death_rule l (Fin k5, r5) = (Fin k6, r6)" "k5 - 30 \<le> k6" "k6 \<le> k5"
    using death_rule_fin by blast
  have "rule_table l = (Fin k6, r6)"
    by (simp add: rule_table_def s0 s1 s2 s3 s4 s5 s6)
  moreover have "- 130 \<le> k6" "k6 \<le> 130"
    using s0 s1 s2 s3 s4 s5 s6 by linarith+
  ultimately show ?thesis by blast
qed

lemma signed_score_fin: "\<exists>k. signed_score data = Fin k \<and> - 130 \<le> k \<and> k \<le> 130"
  using rule_table_fin [of "latest_values data"] by (auto simp: signed_score_def)

lemma recommend_Fin:
  "(recommend (Fin k) = BUY) = (30 < k)"
  "(recommend (Fin k) = SELL) = (k < - 30)"
  "(recommend (Fin k) = HOLD) = (- 30 \<le> k \<and> k \<le> 30)"
  by (auto simp: recommend_def jgt_def)

lemma clamp_Fin:
  "jabs (jmin (jmax (Fin k) (Fin (- 100))) (Fin 100)) = Fin \<bar>min (max k (- 100)) 100\<bar>"
  by (auto simp: jmin_def jmax_def)

lemma generateTradingSignal_nonempty:
  assumes "data \<noteq> []" and "signed_score data = Fin k"
  shows "\<exists>s. generateTradingSignal data = Inr s
      \<and> confidence s = Fin \<bar>min (max k (- 100)) 100\<bar>
      \<and> recommendation s = recommend (Fin k)
      \<and> crossSignals s = detectCrosses data 50 200"
proof -
  obtain rs where rt: "rule_table (latest_values data) = (Fin k, rs)"
    using assms(2) by (cases "rule_table (latest_values data)") (simp add: signed_score_def)
  have cs: "\<lparr> goldenCross = latestGolden (latest_values data),
               deathCross = latestDeath (latest_values data) \<rparr> = detectCrosses data 50 200"
    by (simp add: latest_values_def Let_def)
  show ?thesis
    using assms(1) by (simp add: generateTradingSignal_def Let_def rt clamp_Fin cs)
qed

lemma detectCrosses_not_both:
  "\<not> (goldenCross (detectCrosses data sp lp) \<and> deathCross (detectCrosses data sp lp))"
  by (auto simp: detectCrosses_def Let_def jgt_def dest: jlt_asym)

section \<open>The crossover detector\<close>

text \<open>
  C8. \<^verbatim>\<open>detectCrosses\<close> reads the last two points of the short and of the long average
  only. It reports a golden cross exactly when both averages have at least two points, the
  short one was at most the long one at the point before the last and is above it at the
  last; a death cross exactly when both have at least two points, the short one was at
  least the long one at the point before the last and is below it at the last. With fewer
  than two points in either average both flags are false. The function has no error
  branch: it returns a record on every array.
\<close>

theorem detectCrosses_last_two:
  "goldenCross (detectCrosses data sp lp) =
     (let s = calculateExponentialMovingAverages (map price data) sp;
          l = calculateExponentialMovingAverages (map price data) lp
      in 2 \<le> length s \<and> 2 \<le> length l \<and>
         jle (js_last2 s) (js_last2 l) \<and> jgt (js_last s) (js_last l))
   \<and> deathCross (detectCrosses data sp lp) =
     (let s = calculateExponentialMovingAverages (map price data) sp;
          l = calculateExponentialMovingAverages (map price data) lp
      in 2 \<le> length s \<and> 2 \<le> length l \<and>
         jge (js_last2 s) (js_last2 l) \<and> jlt (js_last s) (js_last l))"
  by (simp add: detectCrosses_def Let_def js_slice_from_last2 not_less)

theorem detectCrosses_last_two_witness:
  "goldenCross (detectCrosses cross3 1 2) \<and> \<not> deathCross (detectCrosses cross3 1 2)
   \<and> \<not> goldenCross (detectCrosses ex3 50 200) \<and> \<not> deathCross (detectCrosses ex3 50 200)"
  using detectCrosses_last_two [of cross3 1 2]
  by (simp add: ema_cross3_1 ema_cross3_2 ex3_crosses js_eval del: One_nat_def)

text \<open>
  C10. The two flags of \<^verbatim>\<open>detectCrosses\<close> are never both true, for any periods, and
  so the \<^verbatim>\<open>crossSignals\<close> of every signal record that \<^verbatim>\<open>generateTradingSignal\<close>
  returns never has both flags true.
\<close>

theorem crossSignals_exclusive:
  "\<not> (goldenCross (detectCrosses data sp lp) \<and> deathCross (detectCrosses data sp lp))
   \<and> (\<forall>s. generateTradingSignal data = Inr s \<longrightarrow>
         \<not> (goldenCross (crossSignals s) \<and> deathCross (crossSignals s)))"
proof (intro conjI allI impI)
  show "\<not> (goldenCross (detectCrosses data sp lp) \<and> deathCross (detectCrosses data sp lp))"
    by (rule detectCrosses_not_both)
next
  fix s
  assume r: "generateTradingSignal data = Inr s"
  then have ne: "data \<noteq> []"
    by (auto simp: generateTradingSignal_def)
  obtain k where "signed_score data = Fin k"
    using signed_score_fin by blast
  from generateTradingSignal_nonempty [OF ne this] r
  have "crossSignals s = detectCrosses data 50 200"
    by auto
  then show "\<not> (goldenCross (crossSignals s) \<and> deathCross (crossSignals s))"
    using detectCrosses_not_both [of data 50 200] by simp
qed

theorem crossSignals_exclusive_witness:
  "(\<exists>s. generateTradingSignal ex3 = Inr s \<and>
        \<not> (goldenCross (crossSignals s) \<and> deathCross (crossSignals s)))
   \<and> goldenCross (detectCrosses cross3 1 2) \<and> \<not> deathCross (detectCrosses cross3 1 2)"
proof -
  have "goldenCross (detectCrosses cross3 1 2)"
    by (simp add: detectCrosses_def ema_cross3_1 ema_cross3_2 js_eval del: One_nat_def)
  then show ?thesis
    using crossSignals_exclusive [of cross3 1 2] crossSignals_exclusive [of ex3 50 200]
    by (simp add: ex3_signal)
qed

section \<open>The signal generator\<close>

text \<open>
  C3. On the empty array \<^verbatim>\<open>generateTradingSignal\<close> raises: the latest price is read as
  \<^verbatim>\<open>this.data[this.data.length - 1].price\<close>, a property of \<^verbatim>\<open>undefined\<close>, which is a
  \<^verbatim>\<open>TypeError\<close>. No signal record is returned.
\<close>

theorem generateTradingSignal_empty_raises:
  "generateTradingSignal [] = Inl TypeError \<and> (\<nexists>s. generateTradingSignal [] = Inr s)"
  by (simp add: generateTradingSignal_def)

text \<open>On every other array, whatever its numbers are, a record is returned and its
  confidence is a finite number.\<close>

lemma generateTradingSignal_returns:
  assumes "data \<noteq> []"
  shows "\<exists>s c. generateTradingSignal data = Inr s \<and> confidence s = Fin c"
proof -
  obtain k where "signed_score data = Fin k"
    using signed_score_fin by blast
  from generateTradingSignal_nonempty [OF assms this] show ?thesis
    by blast
qed

text \<open>
  C4. For every input series, every signal that \<^verbatim>\<open>generateTradingSignal\<close> reports
  has these properties: the signed score \<open>k\<close> reached by the rule table is a finite
  number, the reported confidence is \<open>k\<close> clamped to \<open>[-100, 100]\<close> and then taken in
  absolute value, so it lies in \<open>[0, 100]\<close>, and the recommendation is BUY exactly when
  \<open>k > 30\<close>, SELL exactly when \<open>k < -30\<close> and HOLD otherwise, with \<open>k\<close> the score
  before the clamp. A signal is reported on every non-empty series.
\<close>

theorem confidence_clamp:
  "(data \<noteq> [] \<longrightarrow> (\<exists>s. generateTradingSignal data = Inr s))
   \<and> (\<forall>s. generateTradingSignal data = Inr s \<longrightarrow>
         (\<exists>k c. signed_score data = Fin k
            \<and> confidence s = Fin c
            \<and> c = \<bar>min (max k (- 100)) 100\<bar>
            \<and> 0 \<le> c \<and> c \<le> 100
            \<and> (recommendation s = BUY) = (30 < k)
            \<and> (recommendation s = SELL) = (k < - 30)
            \<and> (recommendation s = HOLD) = (- 30 \<le> k \<and> k \<le> 30)))"
proof (intro conjI allI impI)
  assume "data \<noteq> []"
  then show "\<exists>s. generateTradingSignal data = Inr s"
    using generateTradingSignal_returns by blast
next
  fix s
  assume r: "generateTradingSignal data = Inr s"
  then have ne: "data \<noteq> []"
    by (auto simp: generateTradingSignal_def)
  obtain k where k: "signed_score data = Fin k"
    using signed_score_fin by blast
  from generateTradingSignal_nonempty [OF ne k] r
  have s: "confidence s = Fin \<bar>min (max k (- 100)) 100\<bar>"
    "recommendation s = recommend (Fin k)"
    by auto
  have "0 \<le> \<bar>min (max k (- 100)) 100\<bar>" "\<bar>min (max k (- 100)) 100\<bar> \<le> 100"
    by auto
  then show "\<exists>k c. signed_score data = Fin k
      \<and> confidence s = Fin c
      \<and> c = \<bar>min (max k (- 100)) 100\<bar>
      \<and> 0 \<le> c \<and> c \<le> 100
      \<and> (recommendation s = BUY) = (30 < k)
      \<and> (recommendation s = SELL) = (k < - 30)
      \<and> (recommendation s = HOLD) = (- 30 \<le> k \<and> k \<le> 30)"
    using s k recommend_Fin [of k] by auto
qed

theorem confidence_clamp_witness:
  "ex3 \<noteq> [] \<and> signed_score ex3 = Fin 40
   \<and> (\<exists>s. generateTradingSignal ex3 = Inr s \<and> confidence s = Fin 40 \<and> recommendation s = BUY)"
  using confidence_clamp [of ex3] by (auto simp: ex3_signal ex3_score) (simp add: ex3_def)

section \<open>The exponential moving average\<close>

lemma js_last_nth: "xs \<noteq> [] \<Longrightarrow> js_last xs = xs ! (length xs - 1)"
  by (auto simp: js_last_def js_nth_def nat_diff_distrib' )

lemma js_slice_take: "0 \<le> e \<Longrightarrow> js_slice xs 0 e = take (nat e) xs"
  by (simp add: js_slice_def js_rel_def min_def)

lemma ema_loop_length: "length (ema_loop ps a i ema) = length ema + (length ps - i)"
proof (induction ps a i ema rule: ema_loop.induct)
  case (1 ps a i ema)
  show ?case
    using 1 by (subst ema_loop.simps) auto
qed







text \<open>At any other period the seed of \<^verbatim>\<open>calculateEMA\<close> is the sum of the first
  \<open>periods\<close> prices divided by 50, not by \<open>periods\<close>; the method is private and the
  program calls it without an argument only.\<close>

lemma calculateEMA_other_period:
  "calculateEMA cross3 2 = [Fin (2 / 25), Fin (202 / 75)]
   \<and> calculateExponentialMovingAverages (map price cross3) 2 = [Fin 2, Fin (10 / 3)]"
  by code_simp




section \<open>On-balance volume\<close>

lemma js_nth_nat: "i < length xs \<Longrightarrow> js_nth xs (int i) = xs ! i"
  by (simp add: js_nth_def)

lemma js_nth_pred: "0 < i \<Longrightarrow> i \<le> length xs \<Longrightarrow> js_nth xs (int i - 1) = xs ! (i - 1)"
  by (auto simp: js_nth_def nat_diff_distrib')

lemma obv_loop_length: "length (obv_loop ps vs i obv) = length obv + (length ps - i)"
proof (induction ps vs i obv rule: obv_loop.induct)
  case (1 ps vs i obv)
  show ?case
    using 1 by (subst obv_loop.simps) auto
qed

lemma obv_loop_prefix: "j < length obv \<Longrightarrow> obv_loop ps vs i obv ! j = obv ! j"
proof (induction ps vs i obv rule: obv_loop.induct)
  case (1 ps vs i obv)
  show ?case
    using 1 by (subst obv_loop.simps) (auto simp: nth_append)
qed

lemma obv_loop_unfold:
  assumes "i < length ps" and "length obv = i" and "0 < i" and "length vs = length ps"
  shows "obv_loop ps vs i obv = obv_loop ps vs (Suc i) (obv @ [obv_next ps vs i (obv ! (i - 1))])"
  using assms by (subst obv_loop.simps) (simp add: obv_next_def js_nth_pred js_nth_nat)

lemma obv_loop_step:
  assumes "length obv = i" and "0 < i" and "length vs = length ps" and "i \<le> j" and "j < length ps"
  shows "obv_loop ps vs i obv ! j = obv_next ps vs j (obv_loop ps vs i obv ! (j - 1))"
  using assms
proof (induction "length ps - i" arbitrary: i obv)
  case 0
  then show ?case by simp
next
  case (Suc n)
  let ?x = "obv_next ps vs i (obv ! (i - 1))"
  have lt: "i < length ps"
    using Suc.prems by arith
  have unf: "obv_loop ps vs i obv = obv_loop ps vs (Suc i) (obv @ [?x])"
    using lt Suc.prems by (intro obv_loop_unfold) auto
  show ?case
  proof (cases "j = i")
    case True
    have "obv_loop ps vs (Suc i) (obv @ [?x]) ! j = (obv @ [?x]) ! j"
      using True Suc.prems by (intro obv_loop_prefix) simp
    moreover have "obv_loop ps vs (Suc i) (obv @ [?x]) ! (j - 1) = (obv @ [?x]) ! (j - 1)"
      using True Suc.prems by (intro obv_loop_prefix) simp
    ultimately show ?thesis
      using True unf Suc.prems by (simp add: nth_append)
  next
    case False
    have "obv_loop ps vs (Suc i) (obv @ [?x]) ! j =
            obv_next ps vs j (obv_loop ps vs (Suc i) (obv @ [?x]) ! (j - 1))"
      using Suc.hyps(2) Suc.prems False by (intro Suc.hyps(1)) auto
    then show ?thesis
      by (simp only: unf)
  qed
qed

lemma sorted_wrt_snoc_last:
  assumes "sorted_wrt P os" and "os \<noteq> []" and "P (last os) y"
    and "\<And>a b c. P a b \<Longrightarrow> P b c \<Longrightarrow> P a c"
  shows "sorted_wrt P (os @ [y])"
proof -
  have "P x y" if "x \<in> set os" for x
  proof (cases "x = last os")
    case True
    then show ?thesis using assms(3) by simp
  next
    case False
    have "x \<in> set (butlast os @ [last os])"
      using that assms(2) by simp
    then have "x \<in> set (butlast os)"
      using False by simp
    then have "P x (last os)"
      using assms(1,2) by (metis append_butlast_last_id sorted_wrt_append list.set_intros(1))
    then show ?thesis using assms(3,4) by blast
  qed
  then show ?thesis
    using assms(1) by (simp add: sorted_wrt_append)
qed

text \<open>The loop invariant for a rising series: all values so far are finite and in
  non-decreasing order.\<close>

lemma obv_loop_up:
  assumes "length obv = i" and "0 < i" and "length vs = length ps"
    and "obv = map Fin os" and "sorted_wrt (\<le>) os"
    and "\<forall>j. i \<le> j \<and> j < length ps \<longrightarrow> jgt (ps ! j) (ps ! (j - 1))"
    and "\<forall>j < length vs. \<exists>v. vs ! j = Fin v \<and> 0 \<le> v"
  shows "\<exists>os'. obv_loop ps vs i obv = map Fin os' \<and> sorted_wrt (\<le>) os'"
  using assms
proof (induction "length ps - i" arbitrary: i obv os)
  case 0
  then show ?case
    by (subst obv_loop.simps) auto
next
  case (Suc n)
  let ?x = "obv_next ps vs i (obv ! (i - 1))"
  have lt: "i < length ps"
    using Suc.hyps(2) by arith
  have unf: "obv_loop ps vs i obv = obv_loop ps vs (Suc i) (obv @ [?x])"
    using lt Suc.prems by (intro obv_loop_unfold) auto
  obtain v where v: "vs ! i = Fin v" "0 \<le> v"
    using Suc.prems(3,7) lt by auto
  have ne: "os \<noteq> []"
    using Suc.prems(1,2,4) by auto
  have prev: "obv ! (i - 1) = Fin (last os)"
    using Suc.prems(1,2,4) ne by (simp add: last_conv_nth)
  have x: "?x = Fin (last os + v)"
    using Suc.prems(6) lt v prev by (simp add: obv_next_def)
  have "sorted_wrt (\<le>) (os @ [last os + v])"
    using Suc.prems(5) ne v(2) by (intro sorted_wrt_snoc_last) auto
  moreover have "obv @ [?x] = map Fin (os @ [last os + v])"
    using x Suc.prems(4) by simp
  ultimately have "\<exists>os'. obv_loop ps vs (Suc i) (obv @ [?x]) = map Fin os' \<and> sorted_wrt (\<le>) os'"
    using Suc.hyps(2) Suc.prems by (intro Suc.hyps(1)) auto
  then show ?case
    by (simp only: unf)
qed

text \<open>The loop invariant for a falling series: all values so far are finite and in
  non-increasing order.\<close>

lemma obv_loop_down:
  assumes "length obv = i" and "0 < i" and "length vs = length ps"
    and "obv = map Fin os" and "sorted_wrt (\<ge>) os"
    and "\<forall>j. i \<le> j \<and> j < length ps \<longrightarrow> jlt (ps ! j) (ps ! (j - 1))"
    and "\<forall>j < length vs. \<exists>v. vs ! j = Fin v \<and> 0 \<le> v"
  shows "\<exists>os'. obv_loop ps vs i obv = map Fin os' \<and> sorted_wrt (\<ge>) os'"
  using assms
proof (induction "length ps - i" arbitrary: i obv os)
  case 0
  then show ?case
    by (subst obv_loop.simps) auto
next
  case (Suc n)
  let ?x = "obv_next ps vs i (obv ! (i - 1))"
  have lt: "i < length ps"
    using Suc.hyps(2) by arith
  have unf: "obv_loop ps vs i obv = obv_loop ps vs (Suc i) (obv @ [?x])"
    using lt Suc.prems by (intro obv_loop_unfold) auto
  obtain v where v: "vs ! i = Fin v" "0 \<le> v"
    using Suc.prems(3,7) lt by auto
  have ne: "os \<noteq> []"
    using Suc.prems(1,2,4) by auto
  have prev: "obv ! (i - 1) = Fin (last os)"
    using Suc.prems(1,2,4) ne by (simp add: last_conv_nth)
  have x: "?x = Fin (last os - v)"
    using Suc.prems(6) lt v prev jlt_asym [of "ps ! i" "ps ! (i - 1)"]
    by (simp add: obv_next_def jgt_def jsub_def)
  have "sorted_wrt (\<ge>) (os @ [last os - v])"
    using Suc.prems(5) ne v(2) by (intro sorted_wrt_snoc_last) auto
  moreover have "obv @ [?x] = map Fin (os @ [last os - v])"
    using x Suc.prems(4) by simp
  ultimately have "\<exists>os'. obv_loop ps vs (Suc i) (obv @ [?x]) = map Fin os' \<and> sorted_wrt (\<ge>) os'"
    using Suc.hyps(2) Suc.prems by (intro Suc.hyps(1)) auto
  then show ?case
    by (simp only: unf)
qed

text \<open>
  C9. On a non-empty series whose volumes are finite and not negative,
  \<^verbatim>\<open>calculateOBV\<close> returns one value per observation: the first is the first volume, and
  each later one adds the current volume to the previous value when the price rose,
  subtracts it when the price fell, and repeats the previous value otherwise (so on equal
  prices). If every price is above the one before it, the values are finite and in
  non-decreasing order; if every price is below the one before it, they are finite and in
  non-increasing order.
\<close>

theorem obv_monotone:
  assumes "data \<noteq> []" and "\<forall>d \<in> set data. \<exists>v. volume d = Fin v \<and> 0 \<le> v"
  shows "length (calculateOBV data) = length data
    \<and> calculateOBV data ! 0 = volume (data ! 0)
    \<and> (\<forall>i. 0 < i \<and> i < length data \<longrightarrow>
          calculateOBV data ! i =
            (if jgt (price (data ! i)) (price (data ! (i - 1)))
             then jadd (calculateOBV data ! (i - 1)) (volume (data ! i))
             else if jlt (price (data ! i)) (price (data ! (i - 1)))
             then jsub (calculateOBV data ! (i - 1)) (volume (data ! i))
             else calculateOBV data ! (i - 1)))
    \<and> ((\<forall>i. Suc i < length data \<longrightarrow> jlt (price (data ! i)) (price (data ! Suc i))) \<longrightarrow>
          (\<exists>os. calculateOBV data = map Fin os \<and> sorted_wrt (\<le>) os))
    \<and> ((\<forall>i. Suc i < length data \<longrightarrow> jgt (price (data ! i)) (price (data ! Suc i))) \<longrightarrow>
          (\<exists>os. calculateOBV data = map Fin os \<and> sorted_wrt (\<ge>) os))"
proof (intro conjI allI impI)
  let ?ps = "map price data" and ?vs = "map volume data"
  have n: "0 < length data"
    using assms(1) by simp
  have def: "calculateOBV data = obv_loop ?ps ?vs 1 [?vs ! 0]"
    using n by (simp add: calculateOBV_def Let_def js_nth_def)
  obtain v0 where v0: "?vs ! 0 = Fin v0"
    using assms(2) n by (metis nth_map nth_mem)
  have vols: "\<forall>j < length ?vs. \<exists>v. ?vs ! j = Fin v \<and> 0 \<le> v"
    using assms(2) by auto
  show "length (calculateOBV data) = length data"
    using n by (simp add: def obv_loop_length)
  show "calculateOBV data ! 0 = volume (data ! 0)"
    using n by (simp add: def obv_loop_prefix)
  {
    fix i assume i: "0 < i \<and> i < length data"
    then have pm: "?ps ! (i - 1) = price (data ! (i - 1))" "?ps ! i = price (data ! i)"
      "?vs ! i = volume (data ! i)"
      by (simp_all add: less_imp_diff_less)
    from i have "obv_loop ?ps ?vs 1 [?vs ! 0] ! i =
        obv_next ?ps ?vs i (obv_loop ?ps ?vs 1 [?vs ! 0] ! (i - 1))"
      by (intro obv_loop_step) auto
    then show "calculateOBV data ! i =
            (if jgt (price (data ! i)) (price (data ! (i - 1)))
             then jadd (calculateOBV data ! (i - 1)) (volume (data ! i))
             else if jlt (price (data ! i)) (price (data ! (i - 1)))
             then jsub (calculateOBV data ! (i - 1)) (volume (data ! i))
             else calculateOBV data ! (i - 1))"
      unfolding def obv_next_def pm .
  }
  {
    assume up: "\<forall>i. Suc i < length data \<longrightarrow> jlt (price (data ! i)) (price (data ! Suc i))"
    have "\<forall>j. 1 \<le> j \<and> j < length ?ps \<longrightarrow> jgt (?ps ! j) (?ps ! (j - 1))"
    proof (intro allI impI)
      fix j assume j: "1 \<le> j \<and> j < length ?ps"
      then have "Suc (j - 1) < length data" by simp
      with up have "jlt (price (data ! (j - 1))) (price (data ! Suc (j - 1)))" by blast
      then show "jgt (?ps ! j) (?ps ! (j - 1))"
        using j by (simp add: jgt_def less_imp_diff_less)
    qed
    then have "\<exists>os'. obv_loop ?ps ?vs 1 [?vs ! 0] = map Fin os' \<and> sorted_wrt (\<le>) os'"
      using vols v0 by (intro obv_loop_up [where os = "[v0]"]) auto
    then show "\<exists>os. calculateOBV data = map Fin os \<and> sorted_wrt (\<le>) os"
      by (simp only: def)
  }
  {
    assume down: "\<forall>i. Suc i < length data \<longrightarrow> jgt (price (data ! i)) (price (data ! Suc i))"
    have "\<forall>j. 1 \<le> j \<and> j < length ?ps \<longrightarrow> jlt (?ps ! j) (?ps ! (j - 1))"
    proof (intro allI impI)
      fix j assume j: "1 \<le> j \<and> j < length ?ps"
      then have "Suc (j - 1) < length data" by simp
      with down have "jgt (price (data ! (j - 1))) (price (data ! Suc (j - 1)))" by blast
      then show "jlt (?ps ! j) (?ps ! (j - 1))"
        using j by (simp add: jgt_def less_imp_diff_less)
    qed
    then have "\<exists>os'. obv_loop ?ps ?vs 1 [?vs ! 0] = map Fin os' \<and> sorted_wrt (\<ge>) os'"
      using vols v0 by (intro obv_loop_down [where os = "[v0]"]) auto
    then show "\<exists>os. calculateOBV data = map Fin os \<and> sorted_wrt (\<ge>) os"
      by (simp only: def)
  }
qed

lemma fall3_obv: "calculateOBV fall3 = [Fin 5, Fin (- 1), Fin (- 8)]"
  by code_simp

theorem obv_monotone_witness:
  "ex3 \<noteq> [] \<and> fall3 \<noteq> []
   \<and> (\<exists>os. calculateOBV ex3 = map Fin os \<and> sorted_wrt (\<le>) os \<and> os = [5, 11, 18])
   \<and> (\<exists>os. calculateOBV fall3 = map Fin os \<and> sorted_wrt (\<ge>) os \<and> os = [5, - 1, - 8])"
proof -
  have a: "ex3 \<noteq> []" "\<forall>d \<in> set ex3. \<exists>v. volume d = Fin v \<and> 0 \<le> v"
    by (simp_all add: ex3_def)
  have b: "fall3 \<noteq> []" "\<forall>d \<in> set fall3. \<exists>v. volume d = Fin v \<and> 0 \<le> v"
    by (simp_all add: fall3_def)
  have up: "\<forall>i. Suc i < length ex3 \<longrightarrow> jlt (price (ex3 ! i)) (price (ex3 ! Suc i))"
    by (auto simp: ex3_def less_Suc_eq numeral_3_eq_3)
  have down: "\<forall>i. Suc i < length fall3 \<longrightarrow> jgt (price (fall3 ! i)) (price (fall3 ! Suc i))"
    by (auto simp: fall3_def less_Suc_eq numeral_3_eq_3 jgt_def)
  from obv_monotone [OF a] up
  obtain os where os: "calculateOBV ex3 = map Fin os" "sorted_wrt (\<le>) os"
    by blast
  from obv_monotone [OF b] down
  obtain os' where os': "calculateOBV fall3 = map Fin os'" "sorted_wrt (\<ge>) os'"
    by blast
  have "os = [5, 11, 18]"
    using os(1) by (auto simp: ex3_obv map_eq_Cons_conv)
  moreover have "os' = [5, - 1, - 8]"
    using os'(1) by (auto simp: fall3_obv map_eq_Cons_conv)
  ultimately show ?thesis
    using a(1) b(1) os os' by blast
qed


section \<open>The relative strength index\<close>

lemma half_range_le_max: "half_range \<le> max_double"
proof -
  have "(2::real) ^ 971 \<le> 2 ^ 1023"
    by (rule power_increasing) simp_all
  moreover have "(2::real) ^ 1024 = 2 * 2 ^ 1023"
    by (simp only: power_Suc [symmetric]) simp
  ultimately show ?thesis
    unfolding half_range_def max_double_def by linarith
qed

lemma half_range_ge: "1024 \<le> half_range"
proof -
  have "(2::real) ^ 10 \<le> 2 ^ 1023"
    by (rule power_increasing) simp_all
  then show ?thesis
    unfolding half_range_def by simp
qed

lemma b64_Fin: "\<bar>r\<bar> \<le> max_double \<Longrightarrow> b64 (Fin r) = Fin r"
  by (auto simp: b64.simps)

lemma b64_nonneg: "0 \<le> r \<Longrightarrow> b64 (Fin r) = Fin r \<and> r \<le> max_double \<or> b64 (Fin r) = PInf"
  using half_range_le_max half_range_ge by (auto simp: b64.simps)

lemma hundred_le_max: "100 \<le> max_double"
  using half_range_le_max half_range_ge by linarith

lemma price_changes_range:
  assumes "\<forall>x \<in> set ps. 2 * \<bar>x\<bar> \<le> G" and "G \<le> max_double" and g: "0 \<le> G"
  shows "price_changes (map Fin ps) =
     map Fin (map (\<lambda>i. if 0 < i then ps ! i - ps ! (i - 1) else 0) [0 ..< length ps])"
    and "\<forall>c \<in> set (map (\<lambda>i. if 0 < i then ps ! i - ps ! (i - 1) else 0) [0 ..< length ps]).
           \<bar>c\<bar> \<le> G"
proof -
  have d: "\<bar>ps ! i - ps ! (i - 1)\<bar> \<le> G" if "i < length ps" for i
  proof -
    have "2 * \<bar>ps ! i\<bar> \<le> G" "2 * \<bar>ps ! (i - 1)\<bar> \<le> G"
      using that assms(1) by (simp_all add: less_imp_diff_less)
    then show ?thesis by linarith
  qed
  show "price_changes (map Fin ps) =
     map Fin (map (\<lambda>i. if 0 < i then ps ! i - ps ! (i - 1) else 0) [0 ..< length ps])"
  proof (rule nth_equalityI)
    show "length (price_changes (map Fin ps)) =
      length (map Fin (map (\<lambda>i. if 0 < i then ps ! i - ps ! (i - 1) else 0) [0 ..< length ps]))"
      by (simp add: price_changes_def)
  next
    fix i assume "i < length (price_changes (map Fin ps))"
    then have i: "i < length ps"
      by (simp add: price_changes_def)
    then have "\<bar>ps ! i - ps ! (i - 1)\<bar> \<le> max_double"
      using d assms(2) by force
    then have "b64 (Fin (ps ! i - ps ! (i - 1))) = Fin (ps ! i - ps ! (i - 1))"
      by (rule b64_Fin)
    then show "price_changes (map Fin ps) ! i =
        map Fin (map (\<lambda>i. if 0 < i then ps ! i - ps ! (i - 1) else 0) [0 ..< length ps]) ! i"
      using i by (simp add: price_changes_def rsub_def jsub_def less_imp_diff_less)
  qed
  show "\<forall>c \<in> set (map (\<lambda>i. if 0 < i then ps ! i - ps ! (i - 1) else 0) [0 ..< length ps]).
           \<bar>c\<bar> \<le> G"
    using d g by auto
qed

lemma sum_list_le_length:
  assumes "\<forall>x \<in> set (vs :: real list). x \<le> G"
  shows "sum_list vs \<le> real (length vs) * G"
  using assms by (induction vs) (auto simp: algebra_simps)

lemma foldl_radd_Fin:
  assumes "\<forall>x \<in> set vs. 0 \<le> x \<and> x \<le> G" and "0 \<le> a"
    and "a + real (length vs) * G \<le> max_double"
  shows "foldl radd (Fin a) (map Fin vs) = Fin (a + sum_list vs)"
  using assms
proof (induction vs arbitrary: a)
  case Nil
  then show ?case by simp
next
  case (Cons v vs)
  have v: "0 \<le> v" "v \<le> G"
    using Cons.prems(1) by auto
  then have g: "0 \<le> G" by linarith
  have nn: "0 \<le> real (length vs) * G"
    using g by simp
  have len: "real (length (v # vs)) * G = G + real (length vs) * G"
    by (simp add: algebra_simps)
  have "\<bar>a + v\<bar> \<le> max_double"
    using Cons.prems(2,3) v nn unfolding len by linarith
  then have step: "radd (Fin a) (Fin v) = Fin (a + v)"
    by (simp add: radd_def b64_Fin)
  have "foldl radd (Fin (a + v)) (map Fin vs) = Fin (a + v + sum_list vs)"
  proof (rule Cons.IH)
    show "\<forall>x \<in> set vs. 0 \<le> x \<and> x \<le> G"
      using Cons.prems(1) by simp
    show "0 \<le> a + v"
      using Cons.prems(2) v by simp
    show "a + v + real (length vs) * G \<le> max_double"
      using Cons.prems(3) v unfolding len by linarith
  qed
  then show ?case
    by (simp add: step add.assoc)
qed

lemma seed_range:
  assumes "0 < p" and "0 \<le> G" and "G * real p \<le> max_double"
    and "\<forall>x \<in> set vs. 0 \<le> x \<and> x \<le> G"
  shows "rdiv (js_sum_b64 (js_slice (map Fin vs) 0 (int p))) (Fin (real p)) =
           Fin (sum_list (take p vs) / real p)"
    and "0 \<le> sum_list (take p vs) / real p" and "sum_list (take p vs) / real p \<le> G"
proof -
  let ?t = "take p vs"
  have t: "\<forall>x \<in> set ?t. 0 \<le> x \<and> x \<le> G"
    using assms(4) by (meson in_set_takeD)
  have "real (length ?t) \<le> real p"
    by simp
  then have lenb: "real (length ?t) * G \<le> real p * G"
    using assms(2) by (rule mult_right_mono)
  then have "0 + real (length ?t) * G \<le> max_double"
    using assms(3) by (simp add: mult.commute)
  then have sum: "js_sum_b64 (map Fin ?t) = Fin (0 + sum_list ?t)"
    unfolding js_sum_b64_def using t by (intro foldl_radd_Fin) auto
  have nn: "0 \<le> sum_list ?t"
    using t by (simp add: sum_list_nonneg)
  have "sum_list ?t \<le> real (length ?t) * G"
    using t by (intro sum_list_le_length) auto
  then have ub: "sum_list ?t \<le> real p * G"
    using lenb by linarith
  show q0: "0 \<le> sum_list ?t / real p"
    using nn assms(1) by simp
  show q1: "sum_list ?t / real p \<le> G"
    using ub assms(1) by (simp add: divide_le_eq mult.commute)
  have "G \<le> G * real p"
    using assms(1,2) by (simp add: mult_le_cancel_left1)
  then have "\<bar>sum_list ?t / real p\<bar> \<le> max_double"
    using q0 q1 assms(3) by linarith
  then show "rdiv (js_sum_b64 (js_slice (map Fin vs) 0 (int p))) (Fin (real p)) =
           Fin (sum_list ?t / real p)"
    using assms(1) sum by (simp add: js_slice_take take_map rdiv_def b64_Fin)
qed

lemma smoothed_step_range:
  assumes "0 < p" and "0 \<le> G" and "G * real p \<le> max_double"
    and "0 \<le> a" and "a \<le> G" and "0 \<le> v" and "v \<le> G"
  shows "rdiv (radd (rmul (Fin a) (jsub (Fin (real p)) (Fin 1))) (Fin v)) (Fin (real p)) =
           Fin ((a * (real p - 1) + v) / real p)"
    and "0 \<le> (a * (real p - 1) + v) / real p" and "(a * (real p - 1) + v) / real p \<le> G"
proof -
  have p1: "0 \<le> real p - 1"
    using assms(1) by simp
  have m0: "0 \<le> a * (real p - 1)"
    using assms(4) p1 by simp
  have "a * (real p - 1) \<le> G * (real p - 1)"
    using assms(5) p1 by (rule mult_right_mono)
  then have m1: "a * (real p - 1) + v \<le> G * real p"
    using assms(7) by (simp add: algebra_simps)
  have "\<bar>a * (real p - 1)\<bar> \<le> max_double"
    using m0 m1 assms(3,6) by linarith
  then have mul: "rmul (Fin a) (jsub (Fin (real p)) (Fin 1)) = Fin (a * (real p - 1))"
    by (simp add: rmul_def jsub_def b64_Fin)
  have "\<bar>a * (real p - 1) + v\<bar> \<le> max_double"
    using m0 m1 assms(3,6) by linarith
  then have add: "radd (Fin (a * (real p - 1))) (Fin v) = Fin (a * (real p - 1) + v)"
    by (simp add: radd_def b64_Fin)
  show q0: "0 \<le> (a * (real p - 1) + v) / real p"
    using m0 assms(1,6) by simp
  show q1: "(a * (real p - 1) + v) / real p \<le> G"
    using m1 assms(1) by (simp add: divide_le_eq)
  have "G \<le> G * real p"
    using assms(1,2) by (simp add: mult_le_cancel_left1)
  then have "\<bar>(a * (real p - 1) + v) / real p\<bar> \<le> max_double"
    using q0 q1 assms(3) by linarith
  then show "rdiv (radd (rmul (Fin a) (jsub (Fin (real p)) (Fin 1))) (Fin v)) (Fin (real p)) =
           Fin ((a * (real p - 1) + v) / real p)"
    using assms(1) by (simp add: mul add rdiv_def b64_Fin)
qed

lemma smoothed_loop_length:
  "length (smoothed_loop vs p i acc) = length acc + (length vs - i)"
proof (induction vs p i acc rule: smoothed_loop.induct)
  case (1 vs p i acc)
  show ?case
    using 1 by (subst smoothed_loop.simps) auto
qed

text \<open>The loop invariant of the smoothed average: on values in \<open>[0, G]\<close> every average
  is a finite number in \<open>[0, G]\<close>, when \<open>G * periods\<close> is within the range.\<close>

lemma smoothed_loop_range:
  assumes "0 < p" and "0 \<le> G" and "G * real p \<le> max_double"
    and "acc \<noteq> []" and "\<forall>x \<in> set acc. 0 \<le> x \<and> x \<le> G" and "\<forall>x \<in> set vs. 0 \<le> x \<and> x \<le> G"
  shows "\<exists>rs. smoothed_loop (map Fin vs) p i (map Fin acc) = map Fin rs
      \<and> (\<forall>x \<in> set rs. 0 \<le> x \<and> x \<le> G)"
  using assms
proof (induction "length vs - i" arbitrary: i acc)
  case 0
  then show ?case
    by (subst smoothed_loop.simps) auto
next
  case (Suc n)
  let ?y = "(last acc * (real p - 1) + vs ! i) / real p"
  have lt: "i < length vs"
    using Suc.hyps(2) by arith
  have la: "0 \<le> last acc" "last acc \<le> G" and vi: "0 \<le> vs ! i" "vs ! i \<le> G"
    using Suc.prems(4,5,6) lt by auto
  note st = smoothed_step_range [OF Suc.prems(1,2,3) la vi]
  have "js_last (map Fin acc) = Fin (last acc)"
    using Suc.prems(4) by (simp add: js_last_nth last_conv_nth)
  then have unf: "smoothed_loop (map Fin vs) p i (map Fin acc) =
      smoothed_loop (map Fin vs) p (Suc i) (map Fin (acc @ [?y]))"
    using lt st(1) by (subst smoothed_loop.simps) simp
  have "\<exists>rs. smoothed_loop (map Fin vs) p (Suc i) (map Fin (acc @ [?y])) = map Fin rs
      \<and> (\<forall>x \<in> set rs. 0 \<le> x \<and> x \<le> G)"
  proof (rule Suc.hyps(1))
    show "n = length vs - Suc i"
      using Suc.hyps(2) by arith
    show "0 < p" "0 \<le> G" "G * real p \<le> max_double" "\<forall>x \<in> set vs. 0 \<le> x \<and> x \<le> G"
      by fact+
    show "acc @ [?y] \<noteq> []"
      by simp
    show "\<forall>x \<in> set (acc @ [?y]). 0 \<le> x \<and> x \<le> G"
      using Suc.prems(5) st(2,3) by simp
  qed
  then show ?case
    by (simp only: unf)
qed

lemma calculateSmoothedMovingAverage_range:
  assumes "0 < p" and "0 \<le> G" and "G * real p \<le> max_double"
    and "\<forall>x \<in> set vs. 0 \<le> x \<and> x \<le> G"
  shows "\<exists>rs. calculateSmoothedMovingAverage (map Fin vs) p = map Fin rs
      \<and> (\<forall>x \<in> set rs. 0 \<le> x) \<and> length rs = 1 + (length vs - p)"
proof -
  let ?seed = "sum_list (take p vs) / real p"
  note sd = seed_range [OF assms]
  have def: "calculateSmoothedMovingAverage (map Fin vs) p =
      smoothed_loop (map Fin vs) p p (map Fin [?seed])"
    by (simp add: calculateSmoothedMovingAverage_def sd(1))
  obtain rs where rs: "smoothed_loop (map Fin vs) p p (map Fin [?seed]) = map Fin rs"
    "\<forall>x \<in> set rs. 0 \<le> x \<and> x \<le> G"
    using smoothed_loop_range [OF assms(1,2,3) _ _ assms(4), of "[?seed]" p] sd(2,3) by auto
  have "length (map Fin rs) = 1 + (length vs - p)"
    unfolding rs(1) [symmetric] by (simp add: smoothed_loop_length)
  then show ?thesis
    using rs def by auto
qed

lemma gains_Fin: "map (\<lambda>change. jmax change (Fin 0)) (map Fin cs) = map Fin (map (\<lambda>c. max c 0) cs)"
  by (auto simp: jmax_def max_def)

lemma losses_Fin:
  "map (\<lambda>change. jmax (jneg change) (Fin 0)) (map Fin cs) = map Fin (map (\<lambda>c. max (- c) 0) cs)"
  by (auto simp: jmax_def max_def)

text \<open>The last step, \<^verbatim>\<open>100 - 100 / (1 + x)\<close>, for \<open>x\<close> a finite number that is not
  negative or \<^verbatim>\<open>Infinity\<close>.\<close>

lemma rsi_tail_Fin:
  assumes "0 \<le> q"
  shows "\<exists>r. rsub (Fin 100) (rdiv (Fin 100) (radd (Fin 1) (Fin q))) = Fin r \<and> 0 \<le> r \<and> r \<le> 100"
proof -
  have "0 \<le> 1 + q" using assms by simp
  from b64_nonneg [OF this] show ?thesis
  proof
    assume a: "b64 (Fin (1 + q)) = Fin (1 + q) \<and> 1 + q \<le> max_double"
    have y: "0 \<le> 100 / (1 + q)" "100 / (1 + q) \<le> 100"
      using assms by (simp_all add: divide_le_eq)
    then have "\<bar>100 / (1 + q)\<bar> \<le> max_double" "\<bar>100 - 100 / (1 + q)\<bar> \<le> max_double"
      using hundred_le_max by linarith+
    then have "rsub (Fin 100) (rdiv (Fin 100) (radd (Fin 1) (Fin q))) = Fin (100 - 100 / (1 + q))"
      using a assms by (simp add: radd_def rdiv_def rsub_def jsub_def b64_Fin)
    then show ?thesis
      using y by auto
  next
    assume "b64 (Fin (1 + q)) = PInf"
    then have "rsub (Fin 100) (rdiv (Fin 100) (radd (Fin 1) (Fin q))) = Fin 100"
      using hundred_le_max by (simp add: radd_def rdiv_def rsub_def jsub_def b64_Fin)
    then show ?thesis by simp
  qed
qed

lemma rsi_tail_PInf: "rsub (Fin 100) (rdiv (Fin 100) (radd (Fin 1) PInf)) = Fin 100"
proof -
  have a: "radd (Fin 1) PInf = PInf"
    by (simp add: radd_def b64.simps(2))
  have "\<bar>0::real\<bar> \<le> max_double"
    using hundred_le_max by simp
  then have b: "rdiv (Fin 100) PInf = Fin 0"
    by (simp add: rdiv_def b64_Fin)
  have "\<bar>100::real\<bar> \<le> max_double"
    using hundred_le_max by simp
  then have "rsub (Fin 100) (Fin 0) = Fin 100"
    by (simp add: rsub_def jsub_def b64_Fin)
  then show ?thesis
    by (simp only: a b)
qed

lemma rsi_value_bounds:
  assumes "0 \<le> g" and "0 \<le> l"
  shows "\<exists>r. rsi_value (Fin g) (Fin l) = Fin r \<and> 0 \<le> r \<and> r \<le> 100 \<and> (l = 0 \<longrightarrow> r = 100)"
proof (cases "l = 0")
  case True
  then show ?thesis by (simp add: rsi_value_def jeq_def)
next
  case False
  then have l: "0 < l" using assms(2) by simp
  then have q: "0 \<le> g / l" using assms(1) by simp
  have v: "rsi_value (Fin g) (Fin l) =
      rsub (Fin 100) (rdiv (Fin 100) (radd (Fin 1) (b64 (Fin (g / l)))))"
    using False by (simp add: rsi_value_def jeq_def rdiv_def)
  from b64_nonneg [OF q] show ?thesis
  proof
    assume "b64 (Fin (g / l)) = Fin (g / l) \<and> g / l \<le> max_double"
    then show ?thesis
      using rsi_tail_Fin [OF q] False by (simp add: v)
  next
    assume "b64 (Fin (g / l)) = PInf"
    then show ?thesis
      using False by (simp add: v rsi_tail_PInf)
  qed
qed

lemma gains_range:
  assumes "\<forall>c \<in> set cs. \<bar>c\<bar> \<le> G" and "0 \<le> (G::real)"
  shows "\<forall>x \<in> set (map (\<lambda>c. max c 0) cs). 0 \<le> x \<and> x \<le> G"
  using assms by auto

lemma losses_range:
  assumes "\<forall>c \<in> set cs. \<bar>c\<bar> \<le> G" and "0 \<le> (G::real)"
  shows "\<forall>x \<in> set (map (\<lambda>c. max (- c) 0) cs). 0 \<le> x \<and> x \<le> G"
  using assms by auto

lemma rsi_series_finite:
  assumes "0 < periods"
    and "\<forall>d \<in> set data. \<exists>p. price d = Fin p \<and> 2 * \<bar>p\<bar> * real periods \<le> half_range"
  shows "\<exists>gs ls. rsi_avgGain data periods = map Fin gs \<and> rsi_avgLoss data periods = map Fin ls
      \<and> (\<forall>x \<in> set gs. 0 \<le> x) \<and> (\<forall>x \<in> set ls. 0 \<le> x)
      \<and> length gs = 1 + (length data - periods) \<and> length ls = 1 + (length data - periods)"
proof -
  define G where "G = half_range / real periods"
  have p: "0 < real periods"
    using assms(1) by simp
  have G0: "0 \<le> G"
    using half_range_ge p by (simp add: G_def)
  have Gp: "G * real periods \<le> max_double"
    using half_range_le_max p by (simp add: G_def)
  have "G \<le> G * real periods"
    using assms(1) G0 by (simp add: mult_le_cancel_left1)
  then have Gm: "G \<le> max_double"
    using Gp by linarith
  have "\<exists>ps. map price data = map Fin ps \<and> (\<forall>x \<in> set ps. 2 * \<bar>x\<bar> \<le> G)"
    using assms(2)
  proof (induction data)
    case Nil
    then show ?case by simp
  next
    case (Cons d data)
    from Cons.prems have hd: "\<exists>p. price d = Fin p \<and> 2 * \<bar>p\<bar> * real periods \<le> half_range"
      and tl: "\<forall>d \<in> set data. \<exists>p. price d = Fin p \<and> 2 * \<bar>p\<bar> * real periods \<le> half_range"
      by simp_all
    from Cons.IH [OF tl] obtain ps where
      ps: "map price data = map Fin ps" "\<forall>x \<in> set ps. 2 * \<bar>x\<bar> \<le> G"
      by blast
    from hd obtain q where q: "price d = Fin q" "2 * \<bar>q\<bar> * real periods \<le> half_range"
      by blast
    have "2 * \<bar>q\<bar> \<le> G"
      using q(2) p by (simp add: G_def le_divide_eq)
    then have "map price (d # data) = map Fin (q # ps) \<and> (\<forall>x \<in> set (q # ps). 2 * \<bar>x\<bar> \<le> G)"
      using ps q(1) by simp
    then show ?case by blast
  qed
  then obtain ps where ps: "map price data = map Fin ps" "\<forall>x \<in> set ps. 2 * \<bar>x\<bar> \<le> G"
    by blast
  then have len: "length ps = length data"
    by (metis length_map)
  let ?cs = "map (\<lambda>i. if 0 < i then ps ! i - ps ! (i - 1) else 0) [0 ..< length ps]"
  let ?g = "map (\<lambda>c. max c 0) ?cs" and ?l = "map (\<lambda>c. max (- c) 0) ?cs"
  note pc = price_changes_range [OF ps(2) Gm G0]
  have g: "rsi_avgGain data periods = calculateSmoothedMovingAverage (map Fin ?g) periods"
    by (simp only: rsi_avgGain_def ps(1) pc(1) gains_Fin)
  have l: "rsi_avgLoss data periods = calculateSmoothedMovingAverage (map Fin ?l) periods"
    by (simp only: rsi_avgLoss_def ps(1) pc(1) losses_Fin)
  have rg: "\<forall>x \<in> set ?g. 0 \<le> x \<and> x \<le> G"
    using pc(2) G0 by (rule gains_range)
  have rl: "\<forall>x \<in> set ?l. 0 \<le> x \<and> x \<le> G"
    using pc(2) G0 by (rule losses_range)
  have lg: "length ?g = length data" and ll: "length ?l = length data"
    using len by simp_all
  from calculateSmoothedMovingAverage_range [OF assms(1) G0 Gp rg]
  obtain gs where gs: "rsi_avgGain data periods = map Fin gs" "\<forall>x \<in> set gs. 0 \<le> x"
    "length gs = 1 + (length data - periods)"
    unfolding g lg by blast
  from calculateSmoothedMovingAverage_range [OF assms(1) G0 Gp rl]
  obtain ls where ls: "rsi_avgLoss data periods = map Fin ls" "\<forall>x \<in> set ls. 0 \<le> x"
    "length ls = 1 + (length data - periods)"
    unfolding l ll by blast
  show ?thesis
    using gs ls by blast
qed

lemma alt15_rsi: "calculateRSI alt15 14 = [NaN, NaN]"
  by code_simp

lemma alt15_avg: "rsi_avgGain alt15 14 = [PInf, PInf]" "rsi_avgLoss alt15 14 = [PInf, PInf]"
  by code_simp+


text \<open>
  C6, as stated, fails. On the fifteen observations of \<open>alt15\<close>, whose prices are the
  finite numbers 1 and \<open>half_range\<close> in turn, the seven gains and the six losses among
  the first fourteen changes each sum to more than \<^verbatim>\<open>Number.MAX_VALUE\<close>: both smoothed
  averages are \<^verbatim>\<open>Infinity\<close> at both positions, their quotient is \<^verbatim>\<open>NaN\<close>, and with the
  default period 14 both values of the index are \<^verbatim>\<open>NaN\<close>, which is not in \<open>[0, 100]\<close>.
\<close>

theorem rsi_overflow_counterexample:
  "length alt15 = 15
   \<and> map price alt15 = map (\<lambda>i. Fin (if even i then 1 else half_range)) [0 ..< 15]
   \<and> rsi_avgGain alt15 14 = [PInf, PInf]
   \<and> rsi_avgLoss alt15 14 = [PInf, PInf]
   \<and> calculateRSI alt15 14 = [NaN, NaN]"
  by (simp add: alt15_rsi alt15_avg) (simp add: alt15_def)


text \<open>
  C6, amended. For every series and every period, the value of the index is exactly 100
  at every position where the smoothed average loss is exactly 0. For a positive period
  and finite prices \<open>p\<close> with \<open>2 * |p| * period \<le> half_range\<close>, so that no sum of gains
  or losses leaves the range of binary64, \<^verbatim>\<open>calculateRSI\<close> returns \<open>n - period + 1\<close>
  values when the series has \<open>n \<ge> period\<close> observations (one value when it is shorter),
  and every value is a finite number in \<open>[0, 100]\<close>. The series need not be longer than
  the period for this.
\<close>

theorem rsi_bounds:
  "(\<forall>i < length (calculateRSI data periods).
       js_nth (rsi_avgLoss data periods) (int i) = Fin 0 \<longrightarrow>
       calculateRSI data periods ! i = Fin 100)
   \<and> (0 < periods
        \<and> (\<forall>d \<in> set data. \<exists>p. price d = Fin p \<and> 2 * \<bar>p\<bar> * real periods \<le> half_range) \<longrightarrow>
        length (calculateRSI data periods) = length data - periods + 1
      \<and> length (rsi_avgLoss data periods) = length (calculateRSI data periods)
      \<and> (\<forall>i < length (calculateRSI data periods).
            \<exists>r. calculateRSI data periods ! i = Fin r \<and> 0 \<le> r \<and> r \<le> 100
              \<and> (rsi_avgLoss data periods ! i = Fin 0 \<longrightarrow> r = 100)))"
proof (rule conjI)
  show "\<forall>i < length (calculateRSI data periods).
       js_nth (rsi_avgLoss data periods) (int i) = Fin 0 \<longrightarrow>
       calculateRSI data periods ! i = Fin 100"
    by (simp add: calculateRSI_def Let_def rsi_value_def jeq_def)
next
  have main: "length (calculateRSI data periods) = length data - periods + 1
      \<and> length (rsi_avgLoss data periods) = length (calculateRSI data periods)
      \<and> (\<forall>i < length (calculateRSI data periods).
            \<exists>r. calculateRSI data periods ! i = Fin r \<and> 0 \<le> r \<and> r \<le> 100
              \<and> (rsi_avgLoss data periods ! i = Fin 0 \<longrightarrow> r = 100))"
    if h: "0 < periods
        \<and> (\<forall>d \<in> set data. \<exists>p. price d = Fin p \<and> 2 * \<bar>p\<bar> * real periods \<le> half_range)"
  proof -
  obtain gs ls where f: "rsi_avgGain data periods = map Fin gs"
    "rsi_avgLoss data periods = map Fin ls"
    "\<forall>x \<in> set gs. 0 \<le> x" "\<forall>x \<in> set ls. 0 \<le> x"
    "length gs = 1 + (length data - periods)" "length ls = 1 + (length data - periods)"
    using rsi_series_finite [of periods data] h by blast
  have len: "length (calculateRSI data periods) = length gs"
    by (simp add: calculateRSI_def Let_def f(1))
  have "\<exists>r. calculateRSI data periods ! i = Fin r \<and> 0 \<le> r \<and> r \<le> 100
            \<and> (rsi_avgLoss data periods ! i = Fin 0 \<longrightarrow> r = 100)"
    if "i < length (calculateRSI data periods)" for i
  proof -
    have i: "i < length gs" "i < length ls"
      using that len f(5,6) by auto
    then have v: "calculateRSI data periods ! i = rsi_value (Fin (gs ! i)) (Fin (ls ! i))"
      by (simp add: calculateRSI_def Let_def f(1,2) js_nth_nat)
    have "0 \<le> gs ! i" "0 \<le> ls ! i"
      using i f(3,4) by auto
    from rsi_value_bounds [OF this] show ?thesis
      using i by (auto simp: v f(2))
  qed
  then show ?thesis
    using len f(2,5,6) by auto
  qed
  show "0 < periods
        \<and> (\<forall>d \<in> set data. \<exists>p. price d = Fin p \<and> 2 * \<bar>p\<bar> * real periods \<le> half_range) \<longrightarrow>
        length (calculateRSI data periods) = length data - periods + 1
      \<and> length (rsi_avgLoss data periods) = length (calculateRSI data periods)
      \<and> (\<forall>i < length (calculateRSI data periods).
            \<exists>r. calculateRSI data periods ! i = Fin r \<and> 0 \<le> r \<and> r \<le> 100
              \<and> (rsi_avgLoss data periods ! i = Fin 0 \<longrightarrow> r = 100))"
    by (rule impI) (rule main)
qed


lemma cross3_rsi: "calculateRSI cross3 2 = [Fin 0, Fin 75]"
  by code_simp

lemma ex3_avgLoss: "rsi_avgLoss ex3 2 = [Fin 0, Fin 0]"
  by code_simp

theorem rsi_bounds_witness:
  "(0::nat) < 2 \<and> calculateRSI cross3 2 = [Fin 0, Fin 75]
   \<and> length (calculateRSI ex3 2) = 2 \<and> rsi_avgLoss ex3 2 ! 1 = Fin 0
   \<and> calculateRSI ex3 2 ! 1 = Fin 100"
proof -
  have h: "(0::nat) < 2
      \<and> (\<forall>d \<in> set ex3. \<exists>p. price d = Fin p \<and> 2 * \<bar>p\<bar> * real 2 \<le> half_range)"
    using half_range_ge by (simp add: ex3_def)
  note t = rsi_bounds [of ex3 2, THEN conjunct2, rule_format, OF h]
  have l: "length (calculateRSI ex3 2) = 2"
    using t by (simp add: ex3_def)
  then have "\<exists>r. calculateRSI ex3 2 ! 1 = Fin r \<and> 0 \<le> r \<and> r \<le> 100
      \<and> (rsi_avgLoss ex3 2 ! 1 = Fin 0 \<longrightarrow> r = 100)"
    using t by simp
  then have "calculateRSI ex3 2 ! 1 = Fin 100"
    by (auto simp: ex3_avgLoss)
  then show ?thesis
    using l by (simp add: cross3_rsi ex3_avgLoss)
qed

section \<open>The series normalizer\<close>

lemma filter_key_length_le1:
  "distinct (map f xs) \<Longrightarrow> length (filter (\<lambda>d. f d = t) xs) \<le> 1"
proof (induction xs)
  case Nil
  then show ?case by simp
next
  case (Cons x xs)
  show ?case
  proof (cases "f x = t")
    case True
    have "f x \<notin> f ` set xs"
      using Cons.prems by simp
    then have "\<forall>d \<in> set xs. f d \<noteq> t"
      using True by (metis imageI)
    then have "filter (\<lambda>d. f d = t) xs = []"
      by (simp add: filter_empty_conv)
    then show ?thesis using True by simp
  next
    case False
    then show ?thesis using Cons by simp
  qed
qed

lemma mset_eq_short:
  assumes "mset as = mset bs" and "length as \<le> 1"
  shows "as = bs"
proof (cases as)
  case Nil
  then show ?thesis using assms(1) by simp
next
  case (Cons a as')
  then have "as = [a]" using assms(2) by simp
  then show ?thesis using assms(1) by (metis mset.simps(2) mset_single_iff_right)
qed

lemma filter_key_perm_distinct:
  assumes "mset xs = mset ys" and "distinct (map f xs)"
  shows "filter (\<lambda>d. f d = t) xs = filter (\<lambda>d. f d = t) ys"
proof -
  have "mset (filter (\<lambda>d. f d = t) xs) = mset (filter (\<lambda>d. f d = t) ys)"
    using assms(1) by simp
  then show ?thesis
    using filter_key_length_le1 [OF assms(2)] by (rule mset_eq_short)
qed

lemma sort_key_perm_stable:
  assumes "mset xs = mset ys"
    and "\<forall>t. filter (\<lambda>d. f d = t) xs = filter (\<lambda>d. f d = t) ys"
  shows "sort_key f xs = sort_key f ys"
proof (rule properties_for_sort_key)
  show "mset (sort_key f ys) = mset xs"
    using assms(1) by simp
  show "sorted (map f (sort_key f ys))"
    by simp
  fix k
  have "filter (\<lambda>x. f k = f x) (sort_key f ys) = filter (\<lambda>d. f d = f k) (sort_key f ys)"
    by (simp add: eq_commute)
  also have "\<dots> = filter (\<lambda>d. f d = f k) ys"
    by (rule sort_key_stable)
  also have "\<dots> = filter (\<lambda>d. f d = f k) xs"
    using assms(2) by simp
  also have "\<dots> = filter (\<lambda>x. f k = f x) xs"
    by (simp add: eq_commute)
  finally show "filter (\<lambda>x. f k = f x) (sort_key f ys) = filter (\<lambda>x. f k = f x) xs" .
qed

text \<open>
  C5, as stated, fails: two observations with the same timestamp and different prices
  are a permutation of each other in their two orders, the sort keeps each order as it
  is, and so the two outputs differ.
\<close>

theorem normalizer_ties_counterexample:
  "mset tie2_swapped = mset tie2
   \<and> TradingStrategy tie2 = tie2 \<and> TradingStrategy tie2_swapped = tie2_swapped
   \<and> TradingStrategy tie2_swapped \<noteq> TradingStrategy tie2"
  by (simp add: tie2_def tie2_swapped_def TradingStrategy_def)

text \<open>
  C5, amended. The constructor's output is a permutation of its input, sorted by
  timestamp in ascending order, and stable: the observations of any one timestamp keep
  their input order. Every permutation of the input that keeps the relative order of
  observations with equal timestamps yields the identical output; in particular every
  permutation does when the timestamps are pairwise distinct.
\<close>

theorem normalizer_sorted_stable:
  "sorted (map timestamp (TradingStrategy data))
   \<and> mset (TradingStrategy data) = mset data
   \<and> (\<forall>t. filter (\<lambda>d. timestamp d = t) (TradingStrategy data) =
           filter (\<lambda>d. timestamp d = t) data)
   \<and> (\<forall>data'. mset data' = mset data
          \<and> (\<forall>t. filter (\<lambda>d. timestamp d = t) data' = filter (\<lambda>d. timestamp d = t) data)
        \<longrightarrow> TradingStrategy data' = TradingStrategy data)
   \<and> (\<forall>data'. mset data' = mset data \<and> distinct (map timestamp data)
        \<longrightarrow> TradingStrategy data' = TradingStrategy data)"
proof (intro conjI allI impI)
  show "sorted (map timestamp (TradingStrategy data))"
    by (simp add: TradingStrategy_def)
  show "mset (TradingStrategy data) = mset data"
    by (simp add: TradingStrategy_def)
  show "filter (\<lambda>d. timestamp d = t) (TradingStrategy data) = filter (\<lambda>d. timestamp d = t) data"
    for t
    using sort_key_stable [of timestamp t data] by (simp add: TradingStrategy_def eq_commute)
  show "TradingStrategy data' = TradingStrategy data"
    if "mset data' = mset data
      \<and> (\<forall>t. filter (\<lambda>d. timestamp d = t) data' = filter (\<lambda>d. timestamp d = t) data)"
    for data'
    using that sort_key_perm_stable [of data' data timestamp] by (simp add: TradingStrategy_def)
  show "TradingStrategy data' = TradingStrategy data"
    if "mset data' = mset data \<and> distinct (map timestamp data)" for data'
  proof -
    have "\<forall>t. filter (\<lambda>d. timestamp d = t) data' = filter (\<lambda>d. timestamp d = t) data"
      using that filter_key_perm_distinct [of data data' timestamp] by auto
    then show ?thesis
      using that sort_key_perm_stable [of data' data timestamp] by (simp add: TradingStrategy_def)
  qed
qed

theorem normalizer_sorted_stable_witness:
  "mset ex3_shuffled = mset ex3 \<and> distinct (map timestamp ex3)
   \<and> TradingStrategy ex3_shuffled = TradingStrategy ex3 \<and> TradingStrategy ex3 = ex3"
proof -
  have a: "mset ex3_shuffled = mset ex3 \<and> distinct (map timestamp ex3)"
    by (simp add: ex3_def ex3_shuffled_def)
  then have "TradingStrategy ex3_shuffled = TradingStrategy ex3"
    using normalizer_sorted_stable [of ex3] by blast
  moreover have "TradingStrategy ex3 = ex3"
    by (simp add: ex3_def TradingStrategy_def)
  ultimately show ?thesis
    using a by simp
qed


section \<open>MACD\<close>

lemma step27_short:
  "calculateExponentialMovingAverages (map price step27) 12 = replicate 15 (Fin 1) @ [Fin (15 / 13)]"
  by code_simp

lemma step27_long:
  "calculateExponentialMovingAverages (map price step27) 26 = [Fin 1, Fin (29 / 27)]"
  by code_simp

lemma step27_macd: "macdLine (calculateMACD step27 12 26 9) = [Fin 0, Fin (- 2 / 27)] @ replicate 14 NaN"
  by code_simp

lemma step27_signal: "signalLine (calculateMACD step27 12 26 9) = replicate 8 NaN"
  by code_simp

lemma jsub_NaN: "jsub x NaN = NaN"
  by (cases x) (simp_all add: jsub_def)

lemma ema_length: "length (calculateExponentialMovingAverages ps k) = 1 + (length ps - k)"
  by (simp add: calculateExponentialMovingAverages_def ema_loop_length)

text \<open>With 13 or more observations the short average is longer than the long one, so
  the last subtraction reads the long one outside the array.\<close>

lemma macd_latest_NaN:
  assumes "13 \<le> length data"
  shows "js_last (macdLine (calculateMACD data 12 26 9)) = NaN"
proof -
  let ?s = "calculateExponentialMovingAverages (map price data) 12"
  let ?l = "calculateExponentialMovingAverages (map price data) 26"
  have ls: "length ?s = length data - 11" and ll: "length ?l = 1 + (length data - 26)"
    using assms by (simp_all add: ema_length)
  let ?m = "map (\<lambda>i. jsub (?s ! i) (js_nth ?l (int i))) [0 ..< length ?s]"
  have m: "macdLine (calculateMACD data 12 26 9) = ?m"
    by (simp add: calculateMACD_def Let_def)
  have ne: "?m \<noteq> []"
    using ls assms by auto
  have pos: "length ?s - 1 < length ?s"
    using ls assms by simp
  have "js_last ?m = ?m ! (length ?m - 1)"
    using ne by (rule js_last_nth)
  also have "\<dots> = ?m ! (length ?s - 1)"
    by simp
  also have "\<dots> = jsub (?s ! (length ?s - 1)) (js_nth ?l (int (length ?s - 1)))"
    using pos by (simp only: nth_map_upt minus_nat.diff_0 add_0)
  also have "js_nth ?l (int (length ?s - 1)) = NaN"
  proof -
    have "length ?l \<le> length ?s - 1"
      unfolding ls ll using assms by arith
    then show ?thesis
      unfolding js_nth_def by simp
  qed
  finally show ?thesis
    by (simp add: m jsub_NaN)
qed

lemma jlt_NaN_right: "jlt x NaN = False"
  by (cases x) simp_all

text \<open>So on 13 or more observations the MACD rule of the signal generator always takes
  its bearish branch.\<close>

lemma macd_rule_bearish:
  assumes "13 \<le> length data"
  shows "\<not> jgt (latestMACD (latest_values data)) (latestSignalLine (latest_values data))"
  using macd_latest_NaN [OF assms] by (simp add: latest_values_def Let_def jgt_def jlt_NaN_right)

text \<open>
  C1. \<^verbatim>\<open>calculateMACD\<close> subtracts the two averages position by position,
  \<^verbatim>\<open>shortEMA.map((sEMA, i) => sEMA - longEMA[i])\<close>, although position \<open>i\<close> of the
  12-period average belongs to input index \<open>i + 11\<close> and position \<open>i\<close> of the 26-period
  average to input index \<open>i + 25\<close>. On the 27 observations of \<open>step27\<close> the averages
  are \<open>1, \<dots>, 1, 15/13\<close> (input indices 11 to 26) and \<open>1, 29/27\<close> (input indices 25 and
  26). The MACD line of the code is \<open>0, -2/27\<close> followed by fourteen \<open>NaN\<close>: its second
  value pairs input index 12 of the short average with input index 26 of the long one,
  and the other fourteen subtract a read outside the long average. At input index 26
  the difference of the two averages is \<open>15/13 - 29/27 = 28/351\<close>. The signal line, the
  9-period average of that line, is \<open>NaN\<close> throughout.
\<close>

theorem macd_misaligned:
  "calculateExponentialMovingAverages (map price step27) 12 = replicate 15 (Fin 1) @ [Fin (15 / 13)]
   \<and> calculateExponentialMovingAverages (map price step27) 26 = [Fin 1, Fin (29 / 27)]
   \<and> macdLine (calculateMACD step27 12 26 9) = [Fin 0, Fin (- 2 / 27)] @ replicate 14 NaN
   \<and> jsub (calculateExponentialMovingAverages (map price step27) 12 ! 15)
           (calculateExponentialMovingAverages (map price step27) 26 ! 1) = Fin (28 / 351)
   \<and> signalLine (calculateMACD step27 12 26 9) = replicate 8 NaN
   \<and> js_last (macdLine (calculateMACD step27 12 26 9)) = NaN"
  using macd_latest_NaN [of step27]
  by (simp add: step27_short step27_long step27_macd step27_signal jsub_def nth_append)
    (simp add: step27_def)

section \<open>Bollinger bands\<close>


















end
